theory Spec2Isabelle
  imports Main
begin

section \<open>mistral\_ocr.py: data model\<close>

text \<open>
  The script is a linear pipeline: read the credential, resolve the input into a
  document URL (directly, or by upload and signed-URL fetch), call the OCR service, and
  write the pages to a Markdown file and the embedded images to sibling files.
  Everything it does is an effect, so the embedding threads a \<open>world\<close> (file system,
  trace of network calls, log, standard error, standard output) through the code and
  reads every answer of the outside (environment variables, the Mistral client, the
  file system, the \<open>datauri\<close> and \<open>pathlib\<close> libraries) from an \<open>env\<close> of oracles.
  Strings and byte strings are both \<open>char list\<close>: a text is its UTF-8 bytes, line
  separators are written as they are (POSIX).
\<close>

type_synonym path = string
type_synonym bytes = string

text \<open>
  A file, as opposed to a path that leads to it: two spellings of one path
  (\<open>x.md\<close> and \<open>./x.md\<close>, \<open>out/x.md\<close> and \<open>out/../out/x.md\<close>), a symbolic link and its
  target, or two hard links are different paths to the same file. The file system
  maps files to their content; which file a path leads to is asked of the outside.
\<close>

datatype file_node = File string

text \<open>The exception classes the handlers of the script tell apart.\<close>

datatype exn = KeyError | IOError | DataURIError | OtherException

text \<open>
  The OCR response: \<open>ocr_response.pages\<close>, \<open>page.markdown\<close>, \<open>page.images\<close>,
  \<open>image.id\<close>, \<open>image.image_base64\<close>. A payload may be \<open>None\<close>. A page without an
  \<open>images\<close> attribute, or with \<open>None\<close> there, takes the same branch as one with the
  empty list and is modelled by it.
\<close>

record ocr_image =
  image_id :: string
  image_base64 :: "string option"

record ocr_page =
  markdown :: string
  images :: "ocr_image list"

record ocr_response =
  pages :: "ocr_page list"

text \<open>
  The parsed command line (\<open>argparse.Namespace\<close>). Paths are the strings they are
  written as; \<open>Path(...)\<close> is the identity.
\<close>

record args =
  input_source :: string
  output_file :: string
  url :: bool

text \<open>Calls that reach the remote service, in the order they are made.\<close>

datatype net_call =
    FilesUpload string bytes string
  | FilesGetSignedUrl string
  | OcrProcess string string bool

text \<open>
  Log records: the level and which \<open>logging\<close> call of the script produced it (the
  message texts are Japanese prose and carry no more than the constructor's
  arguments). \<open>logging.debug\<close> calls emit nothing at the configured level \<open>INFO\<close>
  and are left out.
\<close>

datatype level = INFO | WARNING | ERROR

datatype log_msg =
    ScriptStart
  | ArgsParsed string string bool
  | ApiKeyLoaded
  | ClientInitialised
  | EnvVarNotSet string
  | ClientInitFailed
  | NotUrlFormat string
  | UsingUrl string
  | UsingFilePath path
  | FileNotFound path
  | Uploading path
  | Uploaded path string
  | GettingSignedUrl string
  | GotSignedUrl string
  | FileReadFailed path
  | FileProcessingFailed
  | DocumentUrlNotSet
  | OcrStart string
  | OcrDone nat
  | OcrFailed
  | WritingMarkdown path
  | MarkdownDone path
  | MarkdownWriteFailed path
  | MarkdownUnexpected
  | SaveCallFailed
  | AllDone
  | ImageDataEmpty string
  | WritingImage path
  | DataUriParseFailed string
  | ImageWriteFailed path
  | ImageUnexpected string

text \<open>
  Lines the script prints to standard error with \<open>print(..., file=sys.stderr)\<close>. The
  progress display that \<open>tqdm\<close> draws while the pages are written is left out.
\<close>

datatype err_line =
    PleaseSetEnvVar string
  | NotAValidFile path
  | ErrorReadingFile path

record world =
  fs :: "file_node \<Rightarrow> bytes option"
  net :: "net_call list"
  logs :: "(level \<times> log_msg) list"
  stderr :: "err_line list"
  stdout :: "string list"

text \<open>
  The outside. \<open>None\<close> from an oracle of type \<open>exn option\<close> means the call returned;
  \<open>Inl\<close> is a raised exception. \<open>truediv\<close>, \<open>parent\<close> and \<open>name\<close> are \<open>pathlib\<close>'s \<open>/\<close>,
  \<open>.parent\<close> and \<open>.name\<close>; \<open>file_of\<close> is the file that \<open>open\<close> reaches through a path.
  A write that fails says how many bytes reached the file before it did.

  The text handle of the Markdown file is buffered, and how much it buffers is the
  library's business, so it is asked of the outside as well. Each oracle of the handle
  sees the texts the handle has accepted so far:
  \<^item> \<open>write_wt p calls t\<close>: whether \<open>f.write(t)\<close> raises (an error of the write-through it
    triggers), and after how many buffered bytes reached the file; the text stays in
    the buffer;
  \<^item> \<open>flush_wt p calls\<close>: how many of the buffered bytes the handle writes through to the
    file after accepting the last text of \<open>calls\<close> (0 while the buffer is not full);
  \<^item> \<open>close_wt p calls\<close>: whether closing, which writes the rest of the buffer, raises,
    and after how many bytes.

  An oracle answers the same call the same way throughout a run; what the run itself
  writes is kept in the \<open>world\<close>.
\<close>

record env =
  environ :: "string \<Rightarrow> string option"
  Mistral :: "string \<Rightarrow> exn option"
  path_exists :: "path \<Rightarrow> bool"
  is_file :: "path \<Rightarrow> bool"
  open_rb :: "path \<Rightarrow> exn + bytes"
  files_upload :: "string \<Rightarrow> bytes \<Rightarrow> string \<Rightarrow> exn + string"
  files_get_signed_url :: "string \<Rightarrow> exn + string"
  ocr_process :: "string \<Rightarrow> string \<Rightarrow> bool \<Rightarrow> exn + ocr_response"
  datauri_parse :: "string \<Rightarrow> exn + bytes"
  open_wb :: "path \<Rightarrow> exn option"
  write_wb :: "path \<Rightarrow> bytes \<Rightarrow> (exn \<times> nat) option"
  mkdir :: "path \<Rightarrow> exn option"
  open_wt :: "path \<Rightarrow> exn option"
  write_wt :: "path \<Rightarrow> string list \<Rightarrow> string \<Rightarrow> (exn \<times> nat) option"
  flush_wt :: "path \<Rightarrow> string list \<Rightarrow> nat"
  close_wt :: "path \<Rightarrow> string list \<Rightarrow> (exn \<times> nat) option"
  truediv :: "path \<Rightarrow> string \<Rightarrow> path"
  parent :: "path \<Rightarrow> path"
  name :: "path \<Rightarrow> string"
  file_of :: "path \<Rightarrow> file_node"

text \<open>How a call ends: it returns, an exception leaves it, or \<open>sys.exit\<close> was called.\<close>

datatype outcome = Returned | Raised exn | SysExit int

section \<open>Constants and small helpers\<close>

definition MISTRAL_API_KEY_ENV_VAR :: string where
  "MISTRAL_API_KEY_ENV_VAR = ''MISTRAL_API_KEY''"

definition OCR_MODEL :: string where
  "OCR_MODEL = ''mistral-ocr-latest''"

definition page_separator :: string where
  "page_separator = [CHR 0x0A, CHR 0x0A]"

definition log :: "level \<Rightarrow> log_msg \<Rightarrow> world \<Rightarrow> world" where
  "log l m s = s\<lparr>logs := logs s @ [(l, m)]\<rparr>"

definition print_stderr :: "err_line \<Rightarrow> world \<Rightarrow> world" where
  "print_stderr x s = s\<lparr>stderr := stderr s @ [x]\<rparr>"

definition print_stdout :: "string \<Rightarrow> world \<Rightarrow> world" where
  "print_stdout x s = s\<lparr>stdout := stdout s @ [x]\<rparr>"

definition called :: "net_call \<Rightarrow> world \<Rightarrow> world" where
  "called c s = s\<lparr>net := net s @ [c]\<rparr>"

text \<open>\<open>str.startswith\<close> for one prefix.\<close>

definition startswith :: "string \<Rightarrow> string \<Rightarrow> bool" where
  "startswith s p = (take (length p) s = p)"

text \<open>Giving a file a new content, and reading the content (nothing for no file).\<close>

definition put_file :: "file_node \<Rightarrow> bytes \<Rightarrow> world \<Rightarrow> world" where
  "put_file f b s = s\<lparr>fs := (fs s)(f \<mapsto> b)\<rparr>"

definition content_of :: "world \<Rightarrow> file_node \<Rightarrow> bytes" where
  "content_of s f = (case fs s f of None \<Rightarrow> [] | Some b \<Rightarrow> b)"

text \<open>
  Writing the bytes \<open>b\<close> at offset \<open>pos\<close> of a file with content \<open>old\<close>: what lies before
  and after stays, and a gap between the end of the file and the offset reads as zero
  bytes.
\<close>

definition write_at :: "nat \<Rightarrow> bytes \<Rightarrow> bytes \<Rightarrow> bytes" where
  "write_at pos b old =
     take pos old @ replicate (pos - length old) (CHR 0x00) @ b @ drop (pos + length b) old"

section \<open>save\_image\<close>

text \<open>The three handlers of \<open>save_image\<close>; each logs an error and the function returns.\<close>

definition save_image_except :: "exn \<Rightarrow> ocr_image \<Rightarrow> path \<Rightarrow> world \<Rightarrow> world" where
  "save_image_except ex img output_path s =
     (case ex of
        DataURIError \<Rightarrow> log ERROR (DataUriParseFailed (image_id img)) s
      | IOError \<Rightarrow> log ERROR (ImageWriteFailed output_path) s
      | _ \<Rightarrow> log ERROR (ImageUnexpected (image_id img)) s)"

definition save_image :: "env \<Rightarrow> ocr_image \<Rightarrow> path \<Rightarrow> world \<Rightarrow> world" where
  "save_image e img output_dir s =
     (let output_path = truediv e output_dir (image_id img) in
      case image_base64 img of
        None \<Rightarrow> log WARNING (ImageDataEmpty (image_id img)) s
      | Some b64 \<Rightarrow>
          if b64 = [] then log WARNING (ImageDataEmpty (image_id img)) s
          else
            (case datauri_parse e b64 of
               Inl ex \<Rightarrow> save_image_except ex img output_path s
             | Inr image_data \<Rightarrow>
                 (let s1 = log INFO (WritingImage output_path) s in
                  case open_wb e output_path of
                    Some ex \<Rightarrow> save_image_except ex img output_path s1
                  | None \<Rightarrow>
                      (case write_wb e output_path image_data of
                         Some (ex, n) \<Rightarrow>
                           save_image_except ex img output_path
                             (put_file (file_of e output_path) (take n image_data) s1)
                       | None \<Rightarrow> put_file (file_of e output_path) image_data s1))))"

text \<open>The inner loop \<open>for image in page.images: save_image(image, output_dir)\<close>.\<close>

fun save_images :: "env \<Rightarrow> ocr_image list \<Rightarrow> path \<Rightarrow> world \<Rightarrow> world" where
  "save_images e [] output_dir s = s"
| "save_images e (img # rest) output_dir s =
     save_images e rest output_dir (save_image e img output_dir s)"

section \<open>create\_markdown\_file\<close>

text \<open>
  The text handle \<open>f\<close>: the offset in the file up to which it has written, the bytes it
  still buffers, and the texts it has accepted, one for each \<open>f.write\<close> that returned.
  Opening in mode \<open>wt\<close> empties the file and starts at offset 0. The handle writes at its
  own offset, whatever another handle has done to the file in between.
\<close>

record handle =
  h_pos :: nat
  h_buf :: string
  h_calls :: "string list"

text \<open>The handle writes the first \<open>k\<close> buffered bytes through to the file.\<close>

definition raw_write :: "env \<Rightarrow> path \<Rightarrow> nat \<Rightarrow> handle \<Rightarrow> world \<Rightarrow> handle \<times> world" where
  "raw_write e out_file k h s =
     (let b = take k (h_buf h) in
      if b = [] then (h, s)
      else (h\<lparr>h_pos := h_pos h + length b, h_buf := drop k (h_buf h)\<rparr>,
            put_file (file_of e out_file)
              (write_at (h_pos h) b (content_of s (file_of e out_file))) s))"

definition f_write ::
  "env \<Rightarrow> path \<Rightarrow> string \<Rightarrow> handle \<Rightarrow> world \<Rightarrow> exn option \<times> handle \<times> world" where
  "f_write e out_file txt h s =
     (case write_wt e out_file (h_calls h) txt of
        Some (ex, k) \<Rightarrow>
          (let (h1, s1) = raw_write e out_file k (h\<lparr>h_buf := h_buf h @ txt\<rparr>) s
           in (Some ex, h1, s1))
      | None \<Rightarrow>
          (let h0 = h\<lparr>h_buf := h_buf h @ txt, h_calls := h_calls h @ [txt]\<rparr>;
               (h1, s1) = raw_write e out_file (flush_wt e out_file (h_calls h0)) h0 s
           in (None, h1, s1)))"

definition f_close :: "env \<Rightarrow> path \<Rightarrow> handle \<Rightarrow> world \<Rightarrow> exn option \<times> world" where
  "f_close e out_file h s =
     (case close_wt e out_file (h_calls h) of
        Some (ex, k) \<Rightarrow> (Some ex, snd (raw_write e out_file k h s))
      | None \<Rightarrow> (None, snd (raw_write e out_file (length (h_buf h)) h s)))"

text \<open>
  The loop over \<open>enumerate(pages)\<close>: \<open>n\<close> is \<open>len(pages)\<close>, \<open>i\<close> the index of the head of
  the remaining pages. It returns the exception that left the loop, if any, with the
  handle and the world at that point.
\<close>

fun write_pages ::
  "env \<Rightarrow> path \<Rightarrow> path \<Rightarrow> nat \<Rightarrow> nat \<Rightarrow> ocr_page list \<Rightarrow> handle \<Rightarrow> world
     \<Rightarrow> exn option \<times> handle \<times> world" where
  "write_pages e out_file output_dir n i [] h s = (None, h, s)"
| "write_pages e out_file output_dir n i (page # rest) h s =
     (case f_write e out_file (markdown page) h s of
        (Some ex, h1, s1) \<Rightarrow> (Some ex, h1, s1)
      | (None, h1, s1) \<Rightarrow>
          (case (if int i < int n - 1
                 then f_write e out_file page_separator h1 s1
                 else (None, h1, s1)) of
             (Some ex, h2, s2) \<Rightarrow> (Some ex, h2, s2)
           | (None, h2, s2) \<Rightarrow>
               write_pages e out_file output_dir n (Suc i) rest h2
                 (if images page \<noteq> [] then save_images e (images page) output_dir s2
                  else s2)))"

definition create_markdown_file_except :: "exn \<Rightarrow> path \<Rightarrow> world \<Rightarrow> outcome \<times> world" where
  "create_markdown_file_except ex out_file s =
     (case ex of
        IOError \<Rightarrow> (SysExit 1, log ERROR (MarkdownWriteFailed out_file) s)
      | _ \<Rightarrow> (SysExit 1, log ERROR MarkdownUnexpected s))"

text \<open>
  Leaving the \<open>with\<close> block closes the handle, also when an exception leaves the loop;
  an exception of the closing then takes the place of that one.
\<close>

definition create_markdown_file :: "env \<Rightarrow> ocr_response \<Rightarrow> path \<Rightarrow> world \<Rightarrow> outcome \<times> world" where
  "create_markdown_file e resp out_file s =
     (let s1 = log INFO (WritingMarkdown out_file) s;
          output_dir = parent e out_file
      in case mkdir e output_dir of
           Some ex \<Rightarrow> (Raised ex, s1)
         | None \<Rightarrow>
             (case open_wt e out_file of
                Some ex \<Rightarrow> create_markdown_file_except ex out_file s1
              | None \<Rightarrow>
                  (let s2 = put_file (file_of e out_file) [] s1;
                       f = \<lparr>h_pos = 0, h_buf = [], h_calls = []\<rparr>
                   in case write_pages e out_file output_dir (length (pages resp)) 0
                             (pages resp) f s2 of
                        (Some ex, h, s3) \<Rightarrow>
                          (case f_close e out_file h s3 of
                             (Some ex', s4) \<Rightarrow> create_markdown_file_except ex' out_file s4
                           | (None, s4) \<Rightarrow> create_markdown_file_except ex out_file s4)
                      | (None, h, s3) \<Rightarrow>
                          (case f_close e out_file h s3 of
                             (Some ex', s4) \<Rightarrow> create_markdown_file_except ex' out_file s4
                           | (None, s4) \<Rightarrow>
                               (Returned, log INFO (MarkdownDone out_file) s4)))))"

section \<open>main\<close>

text \<open>
  \<open>main\<close> is cut at its comment banners. Each part returns either the exit status
  of a \<open>sys.exit\<close> or the value the next part needs.
\<close>

definition init_client :: "env \<Rightarrow> world \<Rightarrow> (int + unit) \<times> world" where
  "init_client e s =
     (let key_error = (\<lambda>s'. (Inl 1,
            print_stderr (PleaseSetEnvVar MISTRAL_API_KEY_ENV_VAR)
              (log ERROR (EnvVarNotSet MISTRAL_API_KEY_ENV_VAR) s')))
      in case environ e MISTRAL_API_KEY_ENV_VAR of
           None \<Rightarrow> key_error s
         | Some api_key \<Rightarrow>
             (let s1 = log INFO ApiKeyLoaded s in
              case Mistral e api_key of
                None \<Rightarrow> (Inr (), log INFO ClientInitialised s1)
              | Some KeyError \<Rightarrow> key_error s1
              | Some _ \<Rightarrow> (Inl 1, log ERROR ClientInitFailed s1)))"

definition upload_and_sign :: "env \<Rightarrow> path \<Rightarrow> world \<Rightarrow> (exn + string) \<times> world" where
  "upload_and_sign e pdf_file_path s =
     (let s1 = log INFO (Uploading pdf_file_path) s in
      case open_rb e pdf_file_path of
        Inl ex \<Rightarrow> (Inl ex, s1)
      | Inr content \<Rightarrow>
          (let s2 = called (FilesUpload (name e pdf_file_path) content ''ocr'') s1 in
           case files_upload e (name e pdf_file_path) content ''ocr'' of
             Inl ex \<Rightarrow> (Inl ex, s2)
           | Inr file_id \<Rightarrow>
               (let s3 = log INFO (GettingSignedUrl file_id)
                           (log INFO (Uploaded pdf_file_path file_id) s2);
                    s4 = called (FilesGetSignedUrl file_id) s3
                in case files_get_signed_url e file_id of
                     Inl ex \<Rightarrow> (Inl ex, s4)
                   | Inr signed_url \<Rightarrow>
                       (Inr signed_url, log INFO (GotSignedUrl (take 50 signed_url)) s4))))"

definition resolve_document_url :: "env \<Rightarrow> args \<Rightarrow> world \<Rightarrow> (int + string) \<times> world" where
  "resolve_document_url e a s =
     (if url a then
        (let document_url = input_source a;
             s1 = (if \<not> (startswith document_url ''http://'' \<or>
                          startswith document_url ''https://'')
                   then log WARNING (NotUrlFormat document_url) s else s)
         in (Inr document_url, log INFO (UsingUrl document_url) s1))
      else
        (let pdf_file_path = input_source a;
             s1 = log INFO (UsingFilePath pdf_file_path) s
         in if \<not> path_exists e pdf_file_path \<or> \<not> is_file e pdf_file_path then
              (Inl 1, print_stderr (NotAValidFile pdf_file_path)
                        (log ERROR (FileNotFound pdf_file_path) s1))
            else
              (case upload_and_sign e pdf_file_path s1 of
                 (Inr signed_url, s2) \<Rightarrow> (Inr signed_url, s2)
               | (Inl IOError, s2) \<Rightarrow>
                   (Inl 1, print_stderr (ErrorReadingFile pdf_file_path)
                             (log ERROR (FileReadFailed pdf_file_path) s2))
               | (Inl _, s2) \<Rightarrow> (Inl 1, log ERROR FileProcessingFailed s2))))"

definition run_ocr :: "env \<Rightarrow> string \<Rightarrow> world \<Rightarrow> (int + ocr_response) \<times> world" where
  "run_ocr e document_url s =
     (let s1 = called (OcrProcess OCR_MODEL document_url True) (log INFO (OcrStart OCR_MODEL) s)
      in case ocr_process e OCR_MODEL document_url True of
           Inl ex \<Rightarrow> (Inl 1, log ERROR OcrFailed s1)
         | Inr resp \<Rightarrow> (Inr resp, log INFO (OcrDone (length (pages resp))) s1))"

definition save_result :: "env \<Rightarrow> ocr_response \<Rightarrow> path \<Rightarrow> world \<Rightarrow> int \<times> world" where
  "save_result e resp output_file_path s =
     (case create_markdown_file e resp output_file_path s of
        (Raised ex, s1) \<Rightarrow> (1, log ERROR SaveCallFailed s1)
      | (SysExit c, s1) \<Rightarrow> (c, s1)
      | (Returned, s1) \<Rightarrow> (0, print_stdout ''Finished all!'' (log INFO AllDone s1)))"

text \<open>The process: its exit status and the world it leaves.\<close>

definition main :: "env \<Rightarrow> args \<Rightarrow> world \<Rightarrow> int \<times> world" where
  "main e a s =
     (let s1 = log INFO (ArgsParsed (input_source a) (output_file a) (url a))
                 (log INFO ScriptStart s)
      in case init_client e s1 of
           (Inl c, s2) \<Rightarrow> (c, s2)
         | (Inr _, s2) \<Rightarrow>
             (case resolve_document_url e a s2 of
                (Inl c, s3) \<Rightarrow> (c, s3)
              | (Inr document_url, s3) \<Rightarrow>
                  if document_url = [] then (1, log ERROR DocumentUrlNotSet s3)
                  else
                    (case run_ocr e document_url s3 of
                       (Inl c, s4) \<Rightarrow> (c, s4)
                     | (Inr resp, s4) \<Rightarrow> save_result e resp (output_file a) s4)))"

section \<open>Vocabulary of the properties\<close>

text \<open>
  What the specification calls the body of the Markdown file, chunk by chunk: each
  page's text, with one blank-line separator between consecutive pages and none after
  the last. This definition follows the specification's words; \<open>write_pages\<close> above
  follows the code.
\<close>

fun spec_chunks :: "string list \<Rightarrow> string list" where
  "spec_chunks [] = []"
| "spec_chunks [t] = [t]"
| "spec_chunks (t # u # ts) = t # page_separator # spec_chunks (u # ts)"

text \<open>The credential is set and the client constructor returns.\<close>

definition client_ready :: "env \<Rightarrow> bool" where
  "client_ready e =
     (case environ e MISTRAL_API_KEY_ENV_VAR of
        None \<Rightarrow> False
      | Some api_key \<Rightarrow> Mistral e api_key = None)"

text \<open>The handle accepts the texts \<open>ts\<close>, one after the other, after having accepted \<open>calls\<close>.\<close>

fun writes_ok :: "env \<Rightarrow> path \<Rightarrow> string list \<Rightarrow> string list \<Rightarrow> bool" where
  "writes_ok e out_file calls [] = True"
| "writes_ok e out_file calls (t # ts) =
     (write_wt e out_file calls t = None \<and> writes_ok e out_file (calls @ [t]) ts)"

text \<open>
  Creating the output directory, opening the Markdown file, the writes of exactly the
  chunks of this response and the closing all succeed.
\<close>

definition markdown_io_ok :: "env \<Rightarrow> path \<Rightarrow> ocr_response \<Rightarrow> bool" where
  "markdown_io_ok e out_file resp =
     (mkdir e (parent e out_file) = None \<and> open_wt e out_file = None \<and>
      writes_ok e out_file [] (spec_chunks (map markdown (pages resp))) \<and>
      close_wt e out_file (spec_chunks (map markdown (pages resp))) = None)"

text \<open>
  The handle and its file are in step: the file holds what the handle has written
  through, up to the handle's offset, and with the buffered bytes that is the text
  accepted so far. This holds as long as nothing else writes to the file.
\<close>

definition in_step :: "env \<Rightarrow> path \<Rightarrow> handle \<Rightarrow> world \<Rightarrow> bool" where
  "in_step e out_file h s =
     (\<exists>c. fs s (file_of e out_file) = Some c \<and> length c = h_pos h \<and>
          c @ h_buf h = concat (h_calls h))"

text \<open>The paths under which the images of the pages are saved, in processing order.\<close>

definition image_paths :: "env \<Rightarrow> path \<Rightarrow> ocr_page list \<Rightarrow> path list" where
  "image_paths e output_dir ps =
     map (\<lambda>img. truediv e output_dir (image_id img)) (concat (map images ps))"

section \<open>Concrete worlds for the examples\<close>

text \<open>
  \<open>pathlib\<close> on plain relative POSIX paths (no empty, \<open>.\<close> or \<open>..\<close> components, a
  file name without \<open>/\<close> on the right of the join); the examples use only such paths,
  in a directory tree without links, where each of them leads to a file of its own.
\<close>

definition posix_truediv :: "path \<Rightarrow> string \<Rightarrow> path" where
  "posix_truediv d n = (if d = ''.'' then n else d @ ''/'' @ n)"

definition posix_name :: "path \<Rightarrow> string" where
  "posix_name p = rev (takeWhile (\<lambda>c. c \<noteq> CHR ''/'') (rev p))"

definition posix_parent :: "path \<Rightarrow> path" where
  "posix_parent p =
     (case dropWhile (\<lambda>c. c \<noteq> CHR ''/'') (rev p) of
        [] \<Rightarrow> ''.''
      | _ # d \<Rightarrow> rev d)"

definition world0 :: world where
  "world0 = \<lparr>fs = Map.empty, net = [], logs = [], stderr = [], stdout = []\<rparr>"

text \<open>
  A three-page response: page 2 has one image \<open>img-1\<close> with a well-formed payload, page 3
  one image with an empty payload and one with a malformed payload.
\<close>

definition demo_payload :: string where
  "demo_payload = ''data:image/png;base64,MDEyMzQ1Njc4OQ==''"

definition demo_response :: ocr_response where
  "demo_response = \<lparr>pages =
     [\<lparr>markdown = ''# One'', images = []\<rparr>,
      \<lparr>markdown = ''two'', images = [\<lparr>image_id = ''img-1'', image_base64 = Some demo_payload\<rparr>]\<rparr>,
      \<lparr>markdown = ''three'', images =
         [\<lparr>image_id = ''img-2'', image_base64 = Some []\<rparr>,
          \<lparr>image_id = ''img-3'', image_base64 = Some ''data:broken''\<rparr>]\<rparr>]\<rparr>"

text \<open>
  An outside where everything works: the credential is set, \<open>report.pdf\<close> is the one
  existing file, the service answers, and the \<open>datauri\<close> parser accepts \<open>demo_payload\<close>
  only. The texts of the examples are far below the size of the buffer, so the handle
  of the Markdown file writes nothing through before it is closed.
\<close>

definition demo_env :: env where
  "demo_env =
     \<lparr>environ = (\<lambda>v. if v = MISTRAL_API_KEY_ENV_VAR then Some ''secret'' else None),
      Mistral = (\<lambda>k. None),
      path_exists = (\<lambda>p. p = ''report.pdf''),
      is_file = (\<lambda>p. p = ''report.pdf''),
      open_rb = (\<lambda>p. if p = ''report.pdf'' then Inr ''%PDF-1.7'' else Inl IOError),
      files_upload = (\<lambda>n c p. Inr ''file-1''),
      files_get_signed_url = (\<lambda>i. Inr ''https://files.example/signed/file-1''),
      ocr_process = (\<lambda>m u b. Inr demo_response),
      datauri_parse = (\<lambda>u. if u = demo_payload then Inr ''0123456789'' else Inl DataURIError),
      open_wb = (\<lambda>p. None),
      write_wb = (\<lambda>p b. None),
      mkdir = (\<lambda>p. None),
      open_wt = (\<lambda>p. None),
      write_wt = (\<lambda>p calls t. None),
      flush_wt = (\<lambda>p calls. 0),
      close_wt = (\<lambda>p calls. None),
      truediv = posix_truediv,
      parent = posix_parent,
      name = posix_name,
      file_of = File\<rparr>"

definition url_args :: args where
  "url_args = \<lparr>input_source = ''https://example.com/doc.pdf'', output_file = ''out/x.md'', url = True\<rparr>"

definition file_args :: args where
  "file_args = \<lparr>input_source = ''report.pdf'', output_file = ''out/report.md'', url = False\<rparr>"

text \<open>
  A one-page response whose image is named like the Markdown file of \<open>url_args\<close>, so that
  \<open>out/x.md\<close> is both the Markdown file and the file of the image.
\<close>

definition alias_response :: ocr_response where
  "alias_response = \<lparr>pages =
     [\<lparr>markdown = ''# A'', images = [\<lparr>image_id = ''x.md'', image_base64 = Some demo_payload\<rparr>]\<rparr>]\<rparr>"

section \<open>Field access through the world updates\<close>

lemma log_fields [simp]:
  "fs (log l m s) = fs s" "net (log l m s) = net s" "stderr (log l m s) = stderr s"
  "stdout (log l m s) = stdout s" "logs (log l m s) = logs s @ [(l, m)]"
  by (simp_all add: log_def)

lemma print_stderr_fields [simp]:
  "fs (print_stderr x s) = fs s" "net (print_stderr x s) = net s"
  "stderr (print_stderr x s) = stderr s @ [x]" "stdout (print_stderr x s) = stdout s"
  "logs (print_stderr x s) = logs s"
  by (simp_all add: print_stderr_def)

lemma print_stdout_fields [simp]:
  "fs (print_stdout x s) = fs s" "net (print_stdout x s) = net s"
  "stderr (print_stdout x s) = stderr s" "stdout (print_stdout x s) = stdout s @ [x]"
  "logs (print_stdout x s) = logs s"
  by (simp_all add: print_stdout_def)

lemma called_fields [simp]:
  "fs (called c s) = fs s" "net (called c s) = net s @ [c]" "stderr (called c s) = stderr s"
  "stdout (called c s) = stdout s" "logs (called c s) = logs s"
  by (simp_all add: called_def)

lemma put_file_fields [simp]:
  "fs (put_file p b s) = (fs s)(p \<mapsto> b)" "net (put_file p b s) = net s"
  "stderr (put_file p b s) = stderr s" "stdout (put_file p b s) = stdout s"
  "logs (put_file p b s) = logs s"
  by (simp_all add: put_file_def)

section \<open>The run up to the OCR call\<close>

lemma init_client_no_key:
  "environ e MISTRAL_API_KEY_ENV_VAR = None \<Longrightarrow>
   init_client e s = (Inl 1, print_stderr (PleaseSetEnvVar MISTRAL_API_KEY_ENV_VAR)
                              (log ERROR (EnvVarNotSet MISTRAL_API_KEY_ENV_VAR) s))"
  by (simp add: init_client_def)

lemma init_client_ready:
  "client_ready e \<Longrightarrow>
   init_client e s = (Inr (), log INFO ClientInitialised (log INFO ApiKeyLoaded s))"
  by (auto simp: init_client_def client_ready_def split: option.splits)

lemma init_client_outside: 
  "net (snd (init_client e s)) = net s" "fs (snd (init_client e s)) = fs s"
  by (auto simp: init_client_def Let_def split: option.splits exn.splits)

lemma init_client_cases:
  "(\<exists>s'. init_client e s = (Inl 1, s')) \<or> (\<exists>s'. init_client e s = (Inr (), s'))"
  by (auto simp: init_client_def Let_def split: option.splits exn.splits)

text \<open>
  Claim C7. When the environment variable \<open>MISTRAL_API_KEY\<close> is not set, the process ends
  with exit status 1, no call to the remote service has been made (the trace of network
  calls and the file system are as they were), and one line, asking to set the variable,
  has been printed to standard error.
\<close>

theorem missing_credential_exits_1:
  assumes "environ e MISTRAL_API_KEY_ENV_VAR = None"
  shows "fst (main e a s) = 1 \<and>
         net (snd (main e a s)) = net s \<and>
         fs (snd (main e a s)) = fs s \<and>
         stderr (snd (main e a s)) = stderr s @ [PleaseSetEnvVar MISTRAL_API_KEY_ENV_VAR]"
  using assms by (simp add: main_def init_client_no_key)

text \<open>The run of the file-mode example with an empty environment.\<close>

theorem missing_credential_exits_1_witness:
  "fst (main (demo_env\<lparr>environ := Map.empty\<rparr>) file_args world0) = 1 \<and>
   net (snd (main (demo_env\<lparr>environ := Map.empty\<rparr>) file_args world0)) = [] \<and>
   stderr (snd (main (demo_env\<lparr>environ := Map.empty\<rparr>) file_args world0)) = [PleaseSetEnvVar ''MISTRAL_API_KEY'']"
  using missing_credential_exits_1 [of "demo_env\<lparr>environ := Map.empty\<rparr>" file_args world0]
  by (simp add: world0_def MISTRAL_API_KEY_ENV_VAR_def)

lemma resolve_invalid_file:
  assumes "\<not> url a" "\<not> path_exists e (input_source a) \<or> \<not> is_file e (input_source a)"
  shows "resolve_document_url e a s =
           (Inl 1, print_stderr (NotAValidFile (input_source a))
                     (log ERROR (FileNotFound (input_source a))
                        (log INFO (UsingFilePath (input_source a)) s)))"
  using assms by (auto simp: resolve_document_url_def Let_def)

text \<open>
  Claim C8. Without \<open>--url\<close>, when the input path does not exist or is not a regular
  file, the process ends with exit status 1 and has made no network call (no upload, no
  signed-URL fetch, no OCR call), whatever the rest of the outside does; when the client
  was initialised, so that the check of the path is reached, the line printed to
  standard error is the one naming the path as not a valid file.
\<close>

theorem invalid_input_file_exits_1:
  assumes "\<not> url a"
      and "\<not> path_exists e (input_source a) \<or> \<not> is_file e (input_source a)"
  shows "fst (main e a s) = 1 \<and>
         net (snd (main e a s)) = net s \<and>
         fs (snd (main e a s)) = fs s \<and>
         (client_ready e \<longrightarrow>
            stderr (snd (main e a s)) = stderr s @ [NotAValidFile (input_source a)])"
proof -
  let ?s1 = "log INFO (ArgsParsed (input_source a) (output_file a) (url a)) (log INFO ScriptStart s)"
  from init_client_cases [of e ?s1] show ?thesis
  proof
    assume "\<exists>s'. init_client e ?s1 = (Inl 1, s')"
    then obtain s' where i: "init_client e ?s1 = (Inl 1, s')" ..
    have "\<not> client_ready e"
      using i by (auto simp: init_client_ready)
    moreover have "net s' = net s" "fs s' = fs s"
      using init_client_outside [of e ?s1] i by simp_all
    ultimately show ?thesis using i by (simp add: main_def)
  next
    assume "\<exists>s'. init_client e ?s1 = (Inr (), s')"
    then obtain s' where i: "init_client e ?s1 = (Inr (), s')" ..
    have o: "net s' = net s" "fs s' = fs s"
      using init_client_outside [of e ?s1] i by simp_all
    have "client_ready e \<Longrightarrow> stderr s' = stderr s"
      using i by (auto simp: init_client_ready)
    then show ?thesis
      using i o by (auto simp: main_def resolve_invalid_file [OF assms])
  qed
qed

text \<open>The file-mode example pointed at a path that does not exist.\<close>

theorem invalid_input_file_exits_1_witness:
  "\<not> url (file_args\<lparr>input_source := ''missing.pdf''\<rparr>) \<and>
   \<not> path_exists demo_env ''missing.pdf'' \<and> client_ready demo_env \<and>
   fst (main demo_env (file_args\<lparr>input_source := ''missing.pdf''\<rparr>) world0) = 1 \<and>
   net (snd (main demo_env (file_args\<lparr>input_source := ''missing.pdf''\<rparr>) world0)) = [] \<and>
   stderr (snd (main demo_env (file_args\<lparr>input_source := ''missing.pdf''\<rparr>) world0)) =
     [NotAValidFile ''missing.pdf'']"
proof -
  have h: "\<not> url (file_args\<lparr>input_source := ''missing.pdf''\<rparr>)"
    "\<not> path_exists demo_env (input_source (file_args\<lparr>input_source := ''missing.pdf''\<rparr>)) \<or>
     \<not> is_file demo_env (input_source (file_args\<lparr>input_source := ''missing.pdf''\<rparr>))"
    by (simp_all add: file_args_def demo_env_def)
  have r: "client_ready demo_env"
    by (simp add: client_ready_def demo_env_def)
  show ?thesis
    using invalid_input_file_exits_1 [OF h, of world0] h r
    by (simp add: world0_def demo_env_def)
qed

lemma resolve_url:
  "url a \<Longrightarrow> fst (resolve_document_url e a s) = Inr (input_source a) \<and>
     net (snd (resolve_document_url e a s)) = net s \<and>
     fs (snd (resolve_document_url e a s)) = fs s"
  by (simp add: resolve_document_url_def Let_def)

lemma run_ocr_net:
  "net (snd (run_ocr e u s)) = net s @ [OcrProcess OCR_MODEL u True]"
  by (simp add: run_ocr_def Let_def split: sum.splits)

lemma save_image_except_fields [simp]:
  "fs (save_image_except ex img p s) = fs s" "net (save_image_except ex img p s) = net s"
  "stderr (save_image_except ex img p s) = stderr s" "stdout (save_image_except ex img p s) = stdout s"
  by (simp_all add: save_image_except_def split: exn.splits)

lemma save_image_net [simp]: "net (save_image e img d s) = net s"
  by (simp add: save_image_def Let_def split: option.splits sum.splits prod.splits)

lemma save_images_net [simp]: "net (save_images e imgs d s) = net s"
  by (induction imgs arbitrary: s) simp_all

lemma raw_write_net [simp]: "net (snd (raw_write e out k h s)) = net s"
  by (simp add: raw_write_def Let_def)

lemma f_write_net [simp]: "net (snd (snd (f_write e out txt h s))) = net s"
  by (simp add: f_write_def Let_def case_prod_beta split: option.splits)

lemma f_close_net [simp]: "net (snd (f_close e out h s)) = net s"
  by (simp add: f_close_def split: option.splits prod.splits)

lemma write_pages_net [simp]: "net (snd (snd (write_pages e out d n i ps h s))) = net s"
  by (induction ps arbitrary: i h s) (simp_all add: case_prod_beta split: option.splits)

text \<open>
  \<open>create_markdown_file\<close> once the directory exists and the file is open: the loop, then
  the closing of the handle, then the handler or the normal end.
\<close>

lemma create_markdown_file_opened:
  assumes "mkdir e (parent e out) = None" and "open_wt e out = None"
      and "write_pages e out (parent e out) (length (pages resp)) 0 (pages resp)
             \<lparr>h_pos = 0, h_buf = [], h_calls = []\<rparr>
             (put_file (file_of e out) [] (log INFO (WritingMarkdown out) s)) = (x, h, s3)"
      and "f_close e out h s3 = (y, s4)"
  shows "create_markdown_file e resp out s =
           (case y of
              Some ex' \<Rightarrow> create_markdown_file_except ex' out s4
            | None \<Rightarrow>
                (case x of
                   Some ex \<Rightarrow> create_markdown_file_except ex out s4
                 | None \<Rightarrow> (Returned, log INFO (MarkdownDone out) s4)))"
  using assms by (simp add: create_markdown_file_def Let_def split: option.splits)

lemma create_markdown_file_except_fields [simp]:
  "fs (snd (create_markdown_file_except ex out s)) = fs s"
  "net (snd (create_markdown_file_except ex out s)) = net s"
  "fst (create_markdown_file_except ex out s) = SysExit 1"
  by (simp_all add: create_markdown_file_except_def split: exn.splits)

lemma create_markdown_file_net [simp]: "net (snd (create_markdown_file e resp out s)) = net s"
proof (cases "mkdir e (parent e out) = None \<and> open_wt e out = None")
  case False
  then show ?thesis
    by (auto simp: create_markdown_file_def Let_def split: option.splits)
next
  case True
  let ?s2 = "put_file (file_of e out) [] (log INFO (WritingMarkdown out) s)"
  let ?w = "write_pages e out (parent e out) (length (pages resp)) 0 (pages resp)
              \<lparr>h_pos = 0, h_buf = [], h_calls = []\<rparr> ?s2"
  obtain x h s3 where w: "?w = (x, h, s3)" by (cases ?w) auto
  obtain y s4 where c: "f_close e out h s3 = (y, s4)" by (cases "f_close e out h s3") auto
  have "net s3 = net s"
    using write_pages_net [of e out "parent e out" "length (pages resp)" 0 "pages resp"
        "\<lparr>h_pos = 0, h_buf = [], h_calls = []\<rparr>" ?s2] w by simp
  then have "net s4 = net s"
    using f_close_net [of e out h s3] c by simp
  then show ?thesis
    using True by (simp add: create_markdown_file_opened [OF _ _ w c] split: option.splits)
qed

lemma save_result_net [simp]: "net (snd (save_result e resp out s)) = net s"
  using create_markdown_file_net [of e resp out s]
  by (cases "create_markdown_file e resp out s") (auto simp: save_result_def split: outcome.splits)

lemma main_after_resolve:
  assumes "client_ready e" 
  shows "main e a s =
     (let s2 = log INFO ClientInitialised (log INFO ApiKeyLoaded
                 (log INFO (ArgsParsed (input_source a) (output_file a) (url a))
                    (log INFO ScriptStart s)))
      in case resolve_document_url e a s2 of
           (Inl c, s3) \<Rightarrow> (c, s3)
         | (Inr document_url, s3) \<Rightarrow>
             if document_url = [] then (1, log ERROR DocumentUrlNotSet s3)
             else (case run_ocr e document_url s3 of
                     (Inl c, s4) \<Rightarrow> (c, s4)
                   | (Inr resp, s4) \<Rightarrow> save_result e resp (output_file a) s4))"
  by (simp add: main_def init_client_ready [OF assms] Let_def)

lemma resolve_url_logs:
  "url a \<Longrightarrow> logs (snd (resolve_document_url e a s)) =
     logs s @ (if startswith (input_source a) ''http://'' \<or> startswith (input_source a) ''https://''
               then [] else [(WARNING, NotUrlFormat (input_source a))])
            @ [(INFO, UsingUrl (input_source a))]"
  by (simp add: resolve_document_url_def Let_def)

lemma main_net_after_resolve:
  assumes "client_ready e"
      and "fst (resolve_document_url e a
             (log INFO ClientInitialised (log INFO ApiKeyLoaded
               (log INFO (ArgsParsed (input_source a) (output_file a) (url a))
                 (log INFO ScriptStart s))))) = Inr u"
      and "net (snd (resolve_document_url e a
             (log INFO ClientInitialised (log INFO ApiKeyLoaded
               (log INFO (ArgsParsed (input_source a) (output_file a) (url a))
                 (log INFO ScriptStart s)))))) = net s @ cs"
  shows "net (snd (main e a s)) = net s @ cs @ (if u = [] then [] else [OcrProcess OCR_MODEL u True])"
    and "u = [] \<Longrightarrow> fst (main e a s) = 1"
proof -
  let ?s2 = "log INFO ClientInitialised (log INFO ApiKeyLoaded
               (log INFO (ArgsParsed (input_source a) (output_file a) (url a))
                 (log INFO ScriptStart s)))"
  obtain s3 where r: "resolve_document_url e a ?s2 = (Inr u, s3)"
    using assms(2) by (cases "resolve_document_url e a ?s2") auto
  have n3: "net s3 = net s @ cs" using assms(3) r by simp
  show "u = [] \<Longrightarrow> fst (main e a s) = 1"
    by (simp add: main_after_resolve [OF assms(1)] r)
  show "net (snd (main e a s)) = net s @ cs @ (if u = [] then [] else [OcrProcess OCR_MODEL u True])"
  proof (cases "u = []")
    case True
    then show ?thesis by (simp add: main_after_resolve [OF assms(1)] r n3)
  next
    case False
    obtain x s4 where o: "run_ocr e u s3 = (x, s4)" by (cases "run_ocr e u s3") auto
    have n4: "net s4 = net s @ cs @ [OcrProcess OCR_MODEL u True]"
      using run_ocr_net [of e u s3] o n3 by simp
    show ?thesis
      using False n4 save_result_net
      by (cases x) (simp_all add: main_after_resolve [OF assms(1)] r o)
  qed
qed

text \<open>
  Claim C2, as amended. With \<open>--url\<close>, resolving the input makes no network call and
  yields the input source itself as the document URL; a source that starts with neither
  \<open>http://\<close> nor \<open>https://\<close> adds one warning to the log and nothing else. When the
  client was initialised and the source is not the empty string, the only network call
  of the whole run is the OCR call, made with exactly that source as its document URL.
\<close>

theorem url_mode_locator_unchanged:
  assumes "url a"
  shows "fst (resolve_document_url e a s) = Inr (input_source a) \<and>
         net (snd (resolve_document_url e a s)) = net s \<and>
         logs (snd (resolve_document_url e a s)) =
           logs s @ (if startswith (input_source a) ''http://'' \<or>
                        startswith (input_source a) ''https://''
                     then [] else [(WARNING, NotUrlFormat (input_source a))])
                  @ [(INFO, UsingUrl (input_source a))] \<and>
         (client_ready e \<and> input_source a \<noteq> [] \<longrightarrow>
            net (snd (main e a s)) = net s @ [OcrProcess OCR_MODEL (input_source a) True])"
proof -
  have "net (snd (main e a s)) = net s @ [OcrProcess OCR_MODEL (input_source a) True]"
    if "client_ready e" "input_source a \<noteq> []"
    using main_net_after_resolve(1) [OF that(1), of a s "input_source a" "[]"]
      resolve_url [OF assms] that(2) by simp
  then show ?thesis
    using resolve_url [OF assms, of e s] resolve_url_logs [OF assms, of e s] by simp
qed

text \<open>A source that is not an http(s) URL: warned about, and passed on as it is.\<close>

theorem url_mode_locator_unchanged_witness:
  "url (url_args\<lparr>input_source := ''ftp.example.com/doc.pdf''\<rparr>) \<and>
   client_ready demo_env \<and>
   fst (resolve_document_url demo_env (url_args\<lparr>input_source := ''ftp.example.com/doc.pdf''\<rparr>) world0)
     = Inr ''ftp.example.com/doc.pdf'' \<and>
   logs (snd (resolve_document_url demo_env (url_args\<lparr>input_source := ''ftp.example.com/doc.pdf''\<rparr>) world0))
     = [(WARNING, NotUrlFormat ''ftp.example.com/doc.pdf''), (INFO, UsingUrl ''ftp.example.com/doc.pdf'')] \<and>
   net (snd (main demo_env (url_args\<lparr>input_source := ''ftp.example.com/doc.pdf''\<rparr>) world0))
     = [OcrProcess ''mistral-ocr-latest'' ''ftp.example.com/doc.pdf'' True]"
proof -
  have u: "url (url_args\<lparr>input_source := ''ftp.example.com/doc.pdf''\<rparr>)"
    by (simp add: url_args_def)
  have r: "client_ready demo_env"
    by (simp add: client_ready_def demo_env_def)
  show ?thesis
    using url_mode_locator_unchanged [OF u, of demo_env world0] u r
    by (simp add: world0_def startswith_def OCR_MODEL_def)
qed

text \<open>
  Claim C2 as stated fails for the empty source: \<open>--url ""\<close> is warned about and then
  rejected by the guard \<open>if not document_url\<close>. The run ends with status 1 and there is
  no OCR call to pass a locator to.
\<close>

theorem url_mode_empty_source_counterexample:
  "url (url_args\<lparr>input_source := []\<rparr>) \<and>
   client_ready demo_env \<and>
   fst (main demo_env (url_args\<lparr>input_source := []\<rparr>) world0) = 1 \<and>
   net (snd (main demo_env (url_args\<lparr>input_source := []\<rparr>) world0)) = [] \<and>
   logs (snd (main demo_env (url_args\<lparr>input_source := []\<rparr>) world0)) =
     [(INFO, ScriptStart), (INFO, ArgsParsed [] ''out/x.md'' True), (INFO, ApiKeyLoaded),
      (INFO, ClientInitialised), (WARNING, NotUrlFormat []), (INFO, UsingUrl []),
      (ERROR, DocumentUrlNotSet)]"
proof -
  have r: "client_ready demo_env"
    by (simp add: client_ready_def demo_env_def)
  show ?thesis
    by (simp add: r main_after_resolve [OF r] resolve_document_url_def Let_def url_args_def
        world0_def startswith_def)
qed

lemma upload_and_sign_ok:
  assumes "open_rb e p = Inr content"
      and "files_upload e (name e p) content ''ocr'' = Inr file_id"
      and "files_get_signed_url e file_id = Inr u"
  shows "fst (upload_and_sign e p s) = Inr u \<and>
         net (snd (upload_and_sign e p s)) =
           net s @ [FilesUpload (name e p) content ''ocr'', FilesGetSignedUrl file_id]"
  using assms by (simp add: upload_and_sign_def Let_def)

lemma resolve_file_ok:
  assumes "\<not> url a" "path_exists e (input_source a)" "is_file e (input_source a)"
      and "open_rb e (input_source a) = Inr content"
      and "files_upload e (name e (input_source a)) content ''ocr'' = Inr file_id"
      and "files_get_signed_url e file_id = Inr u"
  shows "fst (resolve_document_url e a s) = Inr u \<and>
         net (snd (resolve_document_url e a s)) =
           net s @ [FilesUpload (name e (input_source a)) content ''ocr'', FilesGetSignedUrl file_id]"
proof -
  let ?s1 = "log INFO (UsingFilePath (input_source a)) s"
  obtain s2 where "upload_and_sign e (input_source a) ?s1 = (Inr u, s2)"
    using upload_and_sign_ok [OF assms(4-6), of ?s1]
    by (cases "upload_and_sign e (input_source a) ?s1") auto
  then show ?thesis
    using upload_and_sign_ok [OF assms(4-6), of ?s1] assms(1-3)
    by (simp add: resolve_document_url_def Let_def)
qed

text \<open>
  Claim C3. Without \<open>--url\<close>, for an existing regular file that can be opened, when
  the upload returns a file id and the signed-URL fetch returns a URL (a string that is
  not empty), the input resolves to that URL, and the network calls of the whole run
  are exactly: one upload (under the file's name, with its content), one signed-URL
  fetch for the returned id, and the OCR call with the returned URL unmodified.
\<close>

theorem file_mode_one_upload_one_signed_url:
  assumes "\<not> url a" "client_ready e"
      and "path_exists e (input_source a)" "is_file e (input_source a)"
      and "open_rb e (input_source a) = Inr content"
      and "files_upload e (name e (input_source a)) content ''ocr'' = Inr file_id"
      and "files_get_signed_url e file_id = Inr u"
      and "u \<noteq> []"
  shows "fst (resolve_document_url e a s) = Inr u \<and>
         net (snd (main e a s)) =
           net s @ [FilesUpload (name e (input_source a)) content ''ocr'',
                    FilesGetSignedUrl file_id,
                    OcrProcess OCR_MODEL u True]"
  using resolve_file_ok [OF assms(1) assms(3-7)]
    main_net_after_resolve(1) [OF assms(2), of a s u
      "[FilesUpload (name e (input_source a)) content ''ocr'', FilesGetSignedUrl file_id]"]
    assms(8)
  by simp

text \<open>The file-mode example.\<close>

theorem file_mode_one_upload_one_signed_url_witness:
  "\<not> url file_args \<and> client_ready demo_env \<and>
   path_exists demo_env (input_source file_args) \<and> is_file demo_env (input_source file_args) \<and>
   net (snd (main demo_env file_args world0)) =
     [FilesUpload ''report.pdf'' ''%PDF-1.7'' ''ocr'',
      FilesGetSignedUrl ''file-1'',
      OcrProcess ''mistral-ocr-latest'' ''https://files.example/signed/file-1'' True]"
proof -
  have h: "\<not> url file_args" "client_ready demo_env"
    "path_exists demo_env (input_source file_args)" "is_file demo_env (input_source file_args)"
    "open_rb demo_env (input_source file_args) = Inr ''%PDF-1.7''"
    "files_upload demo_env (name demo_env (input_source file_args)) ''%PDF-1.7'' ''ocr'' = Inr ''file-1''"
    "files_get_signed_url demo_env ''file-1'' = Inr ''https://files.example/signed/file-1''"
    "''https://files.example/signed/file-1'' \<noteq> []"
    by (simp_all add: file_args_def demo_env_def client_ready_def)
  have n: "name demo_env (input_source file_args) = ''report.pdf''"
    by (simp add: file_args_def demo_env_def posix_name_def)
  show ?thesis
    using file_mode_one_upload_one_signed_url [OF h, of world0] h(1-4) n
    by (simp add: world0_def OCR_MODEL_def)
qed

text \<open>
  What the guard \<open>if not document_url\<close> is there for: were the service to answer the
  fetch with an empty string instead of a URL, the run would end with status 1 after
  the upload and the fetch, without an OCR call.
\<close>

lemma file_mode_empty_signed_url_guard:
  "\<not> url file_args \<and>
   path_exists demo_env (input_source file_args) \<and> is_file demo_env (input_source file_args) \<and>
   open_rb demo_env (input_source file_args) = Inr ''%PDF-1.7'' \<and>
   fst (main (demo_env\<lparr>files_get_signed_url := \<lambda>i. Inr []\<rparr>) file_args world0) = 1 \<and>
   net (snd (main (demo_env\<lparr>files_get_signed_url := \<lambda>i. Inr []\<rparr>) file_args world0)) =
     [FilesUpload ''report.pdf'' ''%PDF-1.7'' ''ocr'', FilesGetSignedUrl ''file-1'']"
proof -
  let ?e = "demo_env\<lparr>files_get_signed_url := \<lambda>i. Inr []\<rparr>"
  have r: "client_ready ?e"
    by (simp add: client_ready_def demo_env_def)
  have h: "\<not> url file_args"
    "path_exists ?e (input_source file_args)" "is_file ?e (input_source file_args)"
    "open_rb ?e (input_source file_args) = Inr ''%PDF-1.7''"
    "files_upload ?e (name ?e (input_source file_args)) ''%PDF-1.7'' ''ocr'' = Inr ''file-1''"
    "files_get_signed_url ?e ''file-1'' = Inr []"
    by (simp_all add: file_args_def demo_env_def)
  have n: "name ?e (input_source file_args) = ''report.pdf''"
    by (simp add: file_args_def demo_env_def posix_name_def)
  show ?thesis
    using resolve_file_ok [OF h] main_net_after_resolve [OF r, of file_args world0 "[]"
      "[FilesUpload ''report.pdf'' ''%PDF-1.7'' ''ocr'', FilesGetSignedUrl ''file-1'']"] h n
    by (simp add: world0_def)
qed

section \<open>Saving images\<close>

lemma save_image_empty:
  "image_base64 img = None \<or> image_base64 img = Some [] \<Longrightarrow>
   save_image e img d s = log WARNING (ImageDataEmpty (image_id img)) s"
  by (auto simp: save_image_def Let_def)

lemma save_image_parse_failure:
  "image_base64 img = Some p \<Longrightarrow> p \<noteq> [] \<Longrightarrow> datauri_parse e p = Inl ex \<Longrightarrow>
   save_image e img d s = save_image_except ex img (truediv e d (image_id img)) s"
  by (simp add: save_image_def Let_def)

lemma save_image_except_logs:
  "logs (save_image_except ex img p s) =
     logs s @ [(ERROR, case ex of DataURIError \<Rightarrow> DataUriParseFailed (image_id img)
                               | IOError \<Rightarrow> ImageWriteFailed p
                               | _ \<Rightarrow> ImageUnexpected (image_id img))]"
  by (simp add: save_image_except_def split: exn.splits)

lemma save_image_written:
  "image_base64 img = Some p \<Longrightarrow> p \<noteq> [] \<Longrightarrow> datauri_parse e p = Inr b \<Longrightarrow>
   open_wb e (truediv e d (image_id img)) = None \<Longrightarrow>
   write_wb e (truediv e d (image_id img)) b = None \<Longrightarrow>
   save_image e img d s =
     put_file (file_of e (truediv e d (image_id img))) b
       (log INFO (WritingImage (truediv e d (image_id img))) s)"
  by (simp add: save_image_def Let_def)

text \<open>An image touches no file but the one its path leads to.\<close>

lemma save_image_frame:
  "f \<noteq> file_of e (truediv e d (image_id img)) \<Longrightarrow> fs (save_image e img d s) f = fs s f"
  by (simp add: save_image_def Let_def split: option.splits sum.splits prod.splits)

lemma save_images_frame:
  "f \<notin> set (map (\<lambda>img. file_of e (truediv e d (image_id img))) imgs) \<Longrightarrow>
   fs (save_images e imgs d s) f = fs s f"
  by (induction imgs arbitrary: s) (simp_all add: save_image_frame)

text \<open>What an image does to the files depends on the files only, not on the log.\<close>

lemma save_image_fs_cong:
  assumes "fs s = fs t"
  shows "fs (save_image e img d s) = fs (save_image e img d t)"
proof (cases "image_base64 img")
  case None
  then show ?thesis using assms by (simp add: save_image_def Let_def)
next
  case (Some p)
  show ?thesis
  proof (cases "p = []")
    case True
    then show ?thesis using Some assms by (simp add: save_image_def Let_def)
  next
    case False
    show ?thesis
    proof (cases "datauri_parse e p")
      case (Inl ex)
      then show ?thesis using Some False assms by (simp add: save_image_def Let_def)
    next
      case (Inr b)
      show ?thesis
      proof (cases "open_wb e (truediv e d (image_id img))")
        case (Some ex)
        then show ?thesis
          using \<open>image_base64 img = Some p\<close> False Inr assms by (simp add: save_image_def Let_def)
      next
        case None
        show ?thesis
        proof (cases "write_wb e (truediv e d (image_id img)) b")
          case None
          then show ?thesis
            using \<open>image_base64 img = Some p\<close> False Inr
              \<open>open_wb e (truediv e d (image_id img)) = None\<close> assms
            by (simp add: save_image_def Let_def)
        next
          case (Some r)
          then show ?thesis
            using \<open>image_base64 img = Some p\<close> False Inr
              \<open>open_wb e (truediv e d (image_id img)) = None\<close> assms
            by (cases r) (simp add: save_image_def Let_def)
        qed
      qed
    qed
  qed
qed

lemma save_images_fs_cong:
  "fs s = fs t \<Longrightarrow> fs (save_images e imgs d s) = fs (save_images e imgs d t)"
proof (induction imgs arbitrary: s t)
  case Nil
  then show ?case by simp
next
  case (Cons img imgs)
  from Cons.prems have "fs (save_image e img d s) = fs (save_image e img d t)"
    by (rule save_image_fs_cong)
  then have "fs (save_images e imgs d (save_image e img d s)) =
             fs (save_images e imgs d (save_image e img d t))"
    by (rule Cons.IH)
  then show ?case by simp
qed

lemma save_images_append:
  "save_images e (xs @ ys) d s = save_images e ys d (save_images e xs d s)"
  by (induction xs arbitrary: s) simp_all

lemma save_images_skip:
  assumes "\<And>s. fs (save_image e img d s) = fs s" and "fs s = fs t"
  shows "fs (save_images e (before @ img # after) d s) = fs (save_images e (before @ after) d t)"
proof -
  have "fs (save_images e before d s) = fs (save_images e before d t)"
    using assms(2) by (rule save_images_fs_cong)
  then have "fs (save_image e img d (save_images e before d s)) = fs (save_images e before d t)"
    using assms(1) by simp
  then have "fs (save_images e after d (save_image e img d (save_images e before d s))) =
             fs (save_images e after d (save_images e before d t))"
    by (rule save_images_fs_cong)
  then show ?thesis
    by (simp add: save_images_append)
qed

lemma save_images_if [simp]:
  "(if imgs \<noteq> [] then save_images e imgs d s else s) = save_images e imgs d s"
  "(if imgs = [] then s else save_images e imgs d s) = save_images e imgs d s"
  by (cases imgs; simp)+

section \<open>The handle of the Markdown file\<close>

text \<open>
  What the handle does depends on the files only, and on the world in nothing else;
  what becomes of the handle itself does not depend on the world at all.
\<close>

lemma raw_write_cong:
  assumes "fs s = fs t"
  shows "fst (raw_write e out k h s) = fst (raw_write e out k h t) \<and>
         fs (snd (raw_write e out k h s)) = fs (snd (raw_write e out k h t))"
  using assms by (simp add: raw_write_def content_of_def Let_def)

lemma f_write_cong:
  assumes "fs s = fs t"
  shows "fst (f_write e out txt h s) = fst (f_write e out txt h t) \<and>
         fst (snd (f_write e out txt h s)) = fst (snd (f_write e out txt h t)) \<and>
         fs (snd (snd (f_write e out txt h s))) = fs (snd (snd (f_write e out txt h t)))"
proof (cases "write_wt e out (h_calls h) txt")
  case None
  let ?h0 = "h\<lparr>h_buf := h_buf h @ txt, h_calls := h_calls h @ [txt]\<rparr>"
  show ?thesis
    using None raw_write_cong [OF assms, of e out "flush_wt e out (h_calls ?h0)" ?h0]
    by (simp add: f_write_def Let_def case_prod_beta)
next
  case (Some r)
  obtain ex k where r: "r = (ex, k)" by (cases r) auto
  show ?thesis
    using Some r raw_write_cong [OF assms, of e out k "h\<lparr>h_buf := h_buf h @ txt\<rparr>"]
    by (simp add: f_write_def Let_def case_prod_beta)
qed

lemma f_close_cong:
  assumes "fs s = fs t"
  shows "fst (f_close e out h s) = fst (f_close e out h t) \<and>
         fs (snd (f_close e out h s)) = fs (snd (f_close e out h t))"
proof (cases "close_wt e out (h_calls h)")
  case None
  then show ?thesis
    using raw_write_cong [OF assms, of e out "length (h_buf h)" h]
    by (simp add: f_close_def)
next
  case (Some r)
  obtain ex k where r: "r = (ex, k)" by (cases r) auto
  show ?thesis
    using Some r raw_write_cong [OF assms, of e out k h]
    by (simp add: f_close_def)
qed

lemma raw_write_calls [simp]: "h_calls (fst (raw_write e out k h s)) = h_calls h"
  by (simp add: raw_write_def Let_def)

text \<open>A write the outside accepts returns, and the handle has one more accepted text.\<close>

lemma f_write_ok:
  assumes "write_wt e out (h_calls h) txt = None"
  shows "fst (f_write e out txt h s) = None \<and>
         h_calls (fst (snd (f_write e out txt h s))) = h_calls h @ [txt]"
  using assms by (simp add: f_write_def Let_def case_prod_beta)

section \<open>Writing the pages\<close>

text \<open>The step of the loop, without the test for an empty image list.\<close>

lemma write_pages_Cons:
  "write_pages e out d n i (page # rest) h s =
     (case f_write e out (markdown page) h s of
        (Some ex, h1, s1) \<Rightarrow> (Some ex, h1, s1)
      | (None, h1, s1) \<Rightarrow>
          (case (if int i < int n - 1
                 then f_write e out page_separator h1 s1
                 else (None, h1, s1)) of
             (Some ex, h2, s2) \<Rightarrow> (Some ex, h2, s2)
           | (None, h2, s2) \<Rightarrow>
               write_pages e out d n (Suc i) rest h2
                 (save_images e (images page) d s2)))"
  by (cases "images page") (simp_all split: prod.splits option.splits)

text \<open>
  When every write is accepted, the loop ends normally and the handle has accepted
  exactly the chunks of the specification. \<open>i + length ps = n\<close> is the loop invariant
  that ties the index to the remaining pages.
\<close>

lemma write_pages_ok:
  "i + length ps = n \<Longrightarrow>
   writes_ok e out (h_calls h) (spec_chunks (map markdown ps)) \<Longrightarrow>
   fst (write_pages e out d n i ps h s) = None \<and>
   h_calls (fst (snd (write_pages e out d n i ps h s))) =
     h_calls h @ spec_chunks (map markdown ps)"
proof (induction ps arbitrary: i h s)
  case Nil
  then show ?case by simp
next
  case (Cons page rest)
  obtain h1 s1 where w1: "f_write e out (markdown page) h s = (None, h1, s1)"
    and c1: "h_calls h1 = h_calls h @ [markdown page]"
    using f_write_ok [of e out h "markdown page" s] Cons.prems(2)
    by (cases "f_write e out (markdown page) h s"; cases rest) auto
  show ?case
  proof (cases rest)
    case Nil
    with Cons.prems have "\<not> int i < int n - 1" by auto
    then show ?thesis using Nil w1 c1
      by (simp add: write_pages_Cons del: write_pages.simps(2))
  next
    case (Cons q rest')
    with Cons.prems have lt: "int i < int n - 1"
      and ok2: "write_wt e out (h_calls h1) page_separator = None"
      and ok3: "writes_ok e out (h_calls h1 @ [page_separator]) (spec_chunks (map markdown rest))"
      by (auto simp: c1)
    obtain h2 s2 where w2: "f_write e out page_separator h1 s1 = (None, h2, s2)"
      and c2: "h_calls h2 = h_calls h1 @ [page_separator]"
      using f_write_ok [OF ok2, of s1]
      by (cases "f_write e out page_separator h1 s1") auto
    have "Suc i + length rest = n" using Cons.prems(1) by simp
    from Cons.IH [OF this, of h2 "save_images e (images page) d s2"] ok3 c2
    show ?thesis
      using lt w1 w2 c1 c2 Cons
      by (simp add: write_pages_Cons del: write_pages.simps(2))
  qed
qed

text \<open>
  Two page lists with the same texts whose images do the same to the files end the
  loop the same way, with the same handle and the same files.
\<close>

lemma write_pages_fs_rel:
  "list_all2 (\<lambda>p q. markdown p = markdown q \<and>
      (\<forall>s t. fs s = fs t \<longrightarrow>
         fs (save_images e (images p) d s) = fs (save_images e (images q) d t))) ps qs \<Longrightarrow>
   fs s = fs t \<Longrightarrow>
   fst (write_pages e out d n i ps h s) = fst (write_pages e out d n i qs h t) \<and>
   fst (snd (write_pages e out d n i ps h s)) = fst (snd (write_pages e out d n i qs h t)) \<and>
   fs (snd (snd (write_pages e out d n i ps h s))) =
   fs (snd (snd (write_pages e out d n i qs h t)))"
proof (induction arbitrary: i h s t rule: list_all2_induct)
  case Nil
  then show ?case by simp
next
  case (Cons p ps q qs)
  have m: "markdown p = markdown q"
    and im: "\<And>s t. fs s = fs t \<Longrightarrow>
               fs (save_images e (images p) d s) = fs (save_images e (images q) d t)"
    using Cons.hyps(1) by simp_all
  obtain x1 h1 s1 where a: "f_write e out (markdown p) h s = (x1, h1, s1)"
    by (cases "f_write e out (markdown p) h s") auto
  obtain t1 where b: "f_write e out (markdown p) h t = (x1, h1, t1)" and f1: "fs s1 = fs t1"
    using f_write_cong [OF Cons.prems, of e out "markdown p" h] a
    by (cases "f_write e out (markdown p) h t") auto
  show ?case
  proof (cases x1)
    case (Some ex)
    then show ?thesis
      using a b f1 m by (simp add: write_pages_Cons del: write_pages.simps(2))
  next
    case None
    note x1 = None
    let ?g = "\<lambda>u. if int i < int n - 1 then f_write e out page_separator h1 u else (None, h1, u)"
    obtain x2 h2 s2 where c: "?g s1 = (x2, h2, s2)" by (cases "?g s1") auto
    obtain t2 where c': "?g t1 = (x2, h2, t2)" and f2: "fs s2 = fs t2"
      using f_write_cong [OF f1, of e out page_separator h1] c f1
      by (cases "?g t1") (auto split: if_splits)
    show ?thesis
    proof (cases x2)
      case (Some ex)
      then show ?thesis
        using a b c c' f2 m x1 by (simp add: write_pages_Cons del: write_pages.simps(2))
    next
      case None
      have "fs (save_images e (images p) d s2) = fs (save_images e (images q) d t2)"
        using f2 by (rule im)
      from Cons.IH [OF this, of "Suc i" h2] show ?thesis
        using a b c c' m x1 None by (simp add: write_pages_Cons del: write_pages.simps(2))
    qed
  qed
qed

lemma write_pages_skip:
  assumes "\<And>s. fs (save_image e img d s) = fs s" and "fs s = fs t"
  shows "fst (write_pages e out d n i
               (ps1 @ p\<lparr>images := before @ img # after\<rparr> # ps2) h s) =
         fst (write_pages e out d n i
               (ps1 @ p\<lparr>images := before @ after\<rparr> # ps2) h t) \<and>
         fst (snd (write_pages e out d n i
               (ps1 @ p\<lparr>images := before @ img # after\<rparr> # ps2) h s)) =
         fst (snd (write_pages e out d n i
               (ps1 @ p\<lparr>images := before @ after\<rparr> # ps2) h t)) \<and>
         fs (snd (snd (write_pages e out d n i
               (ps1 @ p\<lparr>images := before @ img # after\<rparr> # ps2) h s))) =
         fs (snd (snd (write_pages e out d n i
               (ps1 @ p\<lparr>images := before @ after\<rparr> # ps2) h t)))"
proof -
  let ?R = "\<lambda>p q. markdown p = markdown q \<and>
      (\<forall>s t. fs s = fs t \<longrightarrow>
         fs (save_images e (images p) d s) = fs (save_images e (images q) d t))"
  have refl: "list_all2 ?R ps ps" for ps :: "ocr_page list"
    by (rule list_all2_refl) (blast intro: save_images_fs_cong)
  have "?R (p\<lparr>images := before @ img # after\<rparr>) (p\<lparr>images := before @ after\<rparr>)"
    using save_images_skip [OF assms(1)] by simp
  then have "list_all2 ?R (ps1 @ p\<lparr>images := before @ img # after\<rparr> # ps2)
                          (ps1 @ p\<lparr>images := before @ after\<rparr> # ps2)"
    using refl by (intro list_all2_appendI list.rel_intros) simp_all
  then show ?thesis
    using assms(2) by (rule write_pages_fs_rel)
qed

section \<open>The Markdown file\<close>

lemma create_markdown_file_returns:
  assumes "markdown_io_ok e out resp"
  shows "fst (create_markdown_file e resp out s) = Returned"
proof -
  let ?s2 = "put_file (file_of e out) [] (log INFO (WritingMarkdown out) s)"
  let ?h0 = "\<lparr>h_pos = 0, h_buf = [], h_calls = []\<rparr>"
  let ?w = "write_pages e out (parent e out) (length (pages resp)) 0 (pages resp) ?h0 ?s2"
  obtain x h s3 where w: "?w = (x, h, s3)" by (cases ?w) auto
  obtain y s4 where c: "f_close e out h s3 = (y, s4)" by (cases "f_close e out h s3") auto
  have io: "mkdir e (parent e out) = None" "open_wt e out = None"
    "writes_ok e out [] (spec_chunks (map markdown (pages resp)))"
    "close_wt e out (spec_chunks (map markdown (pages resp))) = None"
    using assms by (simp_all add: markdown_io_ok_def)
  have "fst ?w = None \<and> h_calls (fst (snd ?w)) = h_calls ?h0 @ spec_chunks (map markdown (pages resp))"
    by (rule write_pages_ok) (simp_all add: io(3))
  then have x: "x = None" and "h_calls h = spec_chunks (map markdown (pages resp))"
    using w by simp_all
  then have "y = None"
    using c io(4) by (auto simp: f_close_def)
  then show ?thesis
    using x by (simp add: create_markdown_file_opened [OF io(1,2) w c])
qed

text \<open>
  Taking an image that leaves the files as they are out of a response changes neither
  the outcome of \<open>create_markdown_file\<close> nor any file.
\<close>

lemma create_markdown_file_skip:
  assumes noop: "\<And>s. fs (save_image e img (parent e out) s) = fs s"
      and r1: "pages r1 = ps1 @ p\<lparr>images := before @ img # after\<rparr> # ps2"
      and r2: "pages r2 = ps1 @ p\<lparr>images := before @ after\<rparr> # ps2"
  shows "fst (create_markdown_file e r1 out s) = fst (create_markdown_file e r2 out s) \<and>
         fs (snd (create_markdown_file e r1 out s)) = fs (snd (create_markdown_file e r2 out s))"
proof (cases "mkdir e (parent e out)")
  case (Some ex)
  then show ?thesis by (simp add: create_markdown_file_def Let_def)
next
  case None
  note mk = None
  show ?thesis
  proof (cases "open_wt e out")
    case (Some ex)
    then show ?thesis
      using mk by (simp add: create_markdown_file_def Let_def)
  next
    case None
    let ?s2 = "put_file (file_of e out) [] (log INFO (WritingMarkdown out) s)"
    let ?h0 = "\<lparr>h_pos = 0, h_buf = [], h_calls = []\<rparr>"
    let ?n = "length (pages r1)"
    let ?w1 = "write_pages e out (parent e out) ?n 0 (pages r1) ?h0 ?s2"
    let ?w2 = "write_pages e out (parent e out) ?n 0 (pages r2) ?h0 ?s2"
    have len: "length (pages r2) = ?n"
      by (simp add: r1 r2)
    obtain x h s3 where w1: "?w1 = (x, h, s3)" by (cases ?w1) auto
    have "fst (write_pages e out (parent e out) ?n 0
                 (ps1 @ p\<lparr>images := before @ img # after\<rparr> # ps2) ?h0 ?s2) =
          fst (write_pages e out (parent e out) ?n 0
                 (ps1 @ p\<lparr>images := before @ after\<rparr> # ps2) ?h0 ?s2) \<and>
          fst (snd (write_pages e out (parent e out) ?n 0
                 (ps1 @ p\<lparr>images := before @ img # after\<rparr> # ps2) ?h0 ?s2)) =
          fst (snd (write_pages e out (parent e out) ?n 0
                 (ps1 @ p\<lparr>images := before @ after\<rparr> # ps2) ?h0 ?s2)) \<and>
          fs (snd (snd (write_pages e out (parent e out) ?n 0
                 (ps1 @ p\<lparr>images := before @ img # after\<rparr> # ps2) ?h0 ?s2))) =
          fs (snd (snd (write_pages e out (parent e out) ?n 0
                 (ps1 @ p\<lparr>images := before @ after\<rparr> # ps2) ?h0 ?s2)))"
      by (rule write_pages_skip [OF noop]) simp
    then have "fst ?w1 = fst ?w2 \<and> fst (snd ?w1) = fst (snd ?w2) \<and>
               fs (snd (snd ?w1)) = fs (snd (snd ?w2))"
      by (simp only: r1 r2)
    then obtain t3 where w2': "?w2 = (x, h, t3)" and f3: "fs s3 = fs t3"
      using w1 by (cases ?w2) auto
    have w2: "write_pages e out (parent e out) (length (pages r2)) 0 (pages r2) ?h0 ?s2
                = (x, h, t3)"
      using w2' by (simp only: len)
    obtain y s4 where c1: "f_close e out h s3 = (y, s4)" by (cases "f_close e out h s3") auto
    obtain t4 where c2: "f_close e out h t3 = (y, t4)" and f4: "fs s4 = fs t4"
      using f_close_cong [OF f3, of e out h] c1 by (cases "f_close e out h t3") auto
    show ?thesis
      using f4
      by (simp add: create_markdown_file_opened [OF mk None w1 c1]
          create_markdown_file_opened [OF mk None w2 c2] split: option.splits)
  qed
qed

section \<open>The exit status of a run\<close>

lemma save_result_status:
  "fst (save_result e resp out s) =
     (case fst (create_markdown_file e resp out s) of
        Returned \<Rightarrow> 0 | Raised ex \<Rightarrow> 1 | SysExit c \<Rightarrow> c)"
  by (cases "create_markdown_file e resp out s") (simp add: save_result_def split: outcome.splits)

lemma save_result_fs:
  "fs (snd (save_result e resp out s)) = fs (snd (create_markdown_file e resp out s))"
  by (cases "create_markdown_file e resp out s") (simp add: save_result_def split: outcome.splits)

lemma upload_and_sign_fst:
  "fst (upload_and_sign e p s) = fst (upload_and_sign e p t)"
  by (simp add: upload_and_sign_def Let_def split: sum.splits)

lemma upload_and_sign_fs: "fs (snd (upload_and_sign e p s)) = fs s"
  by (simp add: upload_and_sign_def Let_def split: sum.splits)

text \<open>
  The document URL, or the exit, that resolving the input gives does not depend on the
  world, and resolving the input writes no file.
\<close>

lemma resolve_document_url_fst:
  "fst (resolve_document_url e a s) = fst (resolve_document_url e a t)"
proof (cases "url a \<or> \<not> path_exists e (input_source a) \<or> \<not> is_file e (input_source a)")
  case True
  then show ?thesis by (auto simp: resolve_document_url_def Let_def)
next
  case False
  let ?u = "upload_and_sign e (input_source a) (log INFO (UsingFilePath (input_source a)) s)"
  let ?v = "upload_and_sign e (input_source a) (log INFO (UsingFilePath (input_source a)) t)"
  obtain x s2 where u: "?u = (x, s2)" by (cases ?u) auto
  obtain y t2 where v: "?v = (y, t2)" by (cases ?v) auto
  have "x = y"
    using upload_and_sign_fst [of e "input_source a" "log INFO (UsingFilePath (input_source a)) s"
        "log INFO (UsingFilePath (input_source a)) t"] u v by simp
  then show ?thesis
    using False u v by (simp add: resolve_document_url_def Let_def split: sum.splits exn.splits)
qed

lemma resolve_document_url_fs: "fs (snd (resolve_document_url e a s)) = fs s"
proof (cases "url a \<or> \<not> path_exists e (input_source a) \<or> \<not> is_file e (input_source a)")
  case True
  then show ?thesis by (auto simp: resolve_document_url_def Let_def)
next
  case False
  let ?u = "upload_and_sign e (input_source a) (log INFO (UsingFilePath (input_source a)) s)"
  obtain x s2 where u: "?u = (x, s2)" by (cases ?u) auto
  have "fs s2 = fs s"
    using upload_and_sign_fs [of e "input_source a" "log INFO (UsingFilePath (input_source a)) s"] u
    by simp
  then show ?thesis
    using False u by (simp add: resolve_document_url_def Let_def split: sum.splits exn.splits)
qed

text \<open>
  A run in which the client is initialised, the input resolves to a non-empty document
  URL and the OCR call returns a response: it ends as the saving of that response does,
  started on the files as they were at the start of the run.
\<close>

lemma main_reaches_save:
  assumes "client_ready e" and "fst (resolve_document_url e a s) = Inr u" and "u \<noteq> []"
      and "ocr_process e OCR_MODEL u True = Inr resp"
  shows "\<exists>s4. fs s4 = fs s \<and> main e a s = save_result e resp (output_file a) s4"
proof -
  let ?s2 = "log INFO ClientInitialised (log INFO ApiKeyLoaded
               (log INFO (ArgsParsed (input_source a) (output_file a) (url a))
                 (log INFO ScriptStart s)))"
  have "fst (resolve_document_url e a ?s2) = Inr u"
    using assms(2) resolve_document_url_fst [of e a ?s2 s] by simp
  then obtain s3 where r: "resolve_document_url e a ?s2 = (Inr u, s3)"
    by (cases "resolve_document_url e a ?s2") auto
  have f3: "fs s3 = fs s"
    using resolve_document_url_fs [of e a ?s2] r by simp
  let ?s4 = "log INFO (OcrDone (length (pages resp)))
               (called (OcrProcess OCR_MODEL u True) (log INFO (OcrStart OCR_MODEL) s3))"
  have o: "run_ocr e u s3 = (Inr resp, ?s4)"
    using assms(4) by (simp add: run_ocr_def Let_def)
  have "main e a s = save_result e resp (output_file a) ?s4"
    using assms(3) by (simp add: main_after_resolve [OF assms(1)] r o)
  moreover have "fs ?s4 = fs s" using f3 by simp
  ultimately show ?thesis by blast
qed

text \<open>When, moreover, the Markdown file can be written, the run ends with exit status 0.\<close>

lemma main_exit_0:
  assumes "client_ready e" and "fst (resolve_document_url e a s) = Inr u" and "u \<noteq> []"
      and "ocr_process e OCR_MODEL u True = Inr resp"
      and "markdown_io_ok e (output_file a) resp"
  shows "fst (main e a s) = 0"
proof -
  obtain s4 where "main e a s = save_result e resp (output_file a) s4"
    using main_reaches_save [OF assms(1-4)] by blast
  then show ?thesis
    using create_markdown_file_returns [OF assms(5), of s4] by (simp add: save_result_status)
qed

section \<open>The Markdown file when no image is saved to it\<close>

text \<open>
  The chunks of the specification: \<open>N\<close> texts and \<open>N - 1\<close> separators, the texts at the
  even positions and the separators at the odd ones.
\<close>

lemma spec_chunks_length:
  "length (spec_chunks ts) = length ts + (length ts - 1)"
  by (induction ts rule: spec_chunks.induct) simp_all

lemma spec_chunks_nth:
  "k < length ts \<Longrightarrow> spec_chunks ts ! (2 * k) = ts ! k"
  "Suc k < length ts \<Longrightarrow> spec_chunks ts ! (2 * k + 1) = page_separator"
proof (induction ts arbitrary: k rule: spec_chunks.induct)
  case 1
  { case 1 then show ?case by simp }
  { case 2 then show ?case by simp }
next
  case (2 t)
  { case 1 then show ?case by simp }
  { case 2 then show ?case by simp }
next
  case (3 t u ts)
  { case 1 then show ?case using "3.IH"(1) [of "k - 1"] by (cases k) simp_all }
  { case 2 then show ?case using "3.IH"(2) [of "k - 1"] by (cases k) simp_all }
qed

text \<open>Writing through keeps the handle and the file in step, whatever the amount.\<close>

lemma raw_write_in_step:
  assumes "fs s (file_of e out) = Some c" and "length c = h_pos h"
  shows "\<exists>c'. fs (snd (raw_write e out k h s)) (file_of e out) = Some c' \<and>
              length c' = h_pos (fst (raw_write e out k h s)) \<and>
              c' @ h_buf (fst (raw_write e out k h s)) = c @ h_buf h"
  using assms by (simp add: raw_write_def content_of_def write_at_def Let_def)

lemma f_write_in_step:
  assumes "in_step e out h s" and "write_wt e out (h_calls h) txt = None"
  shows "in_step e out (fst (snd (f_write e out txt h s))) (snd (snd (f_write e out txt h s)))"
proof -
  obtain c where c: "fs s (file_of e out) = Some c" "length c = h_pos h"
    "c @ h_buf h = concat (h_calls h)"
    using assms(1) by (auto simp: in_step_def)
  let ?h0 = "h\<lparr>h_buf := h_buf h @ txt, h_calls := h_calls h @ [txt]\<rparr>"
  let ?r = "raw_write e out (flush_wt e out (h_calls ?h0)) ?h0 s"
  have r: "f_write e out txt h s = (None, fst ?r, snd ?r)"
    using assms(2) by (simp add: f_write_def Let_def case_prod_beta)
  have "\<exists>c'. fs (snd ?r) (file_of e out) = Some c' \<and> length c' = h_pos (fst ?r) \<and>
             c' @ h_buf (fst ?r) = c @ h_buf ?h0"
    by (rule raw_write_in_step) (simp_all add: c)
  then show ?thesis
    using c(3) by (auto simp: in_step_def r)
qed

lemma save_images_in_step:
  assumes "in_step e out h s"
      and "file_of e out \<notin> set (map (\<lambda>img. file_of e (truediv e d (image_id img))) imgs)"
  shows "in_step e out h (save_images e imgs d s)"
  using assms by (simp add: in_step_def save_images_frame)

lemma write_pages_in_step:
  "in_step e out h s \<Longrightarrow> i + length ps = n \<Longrightarrow>
   writes_ok e out (h_calls h) (spec_chunks (map markdown ps)) \<Longrightarrow>
   file_of e out \<notin> set (map (file_of e) (image_paths e d ps)) \<Longrightarrow>
   in_step e out (fst (snd (write_pages e out d n i ps h s)))
     (snd (snd (write_pages e out d n i ps h s)))"
proof (induction ps arbitrary: i h s)
  case Nil
  then show ?case by simp
next
  case (Cons page rest)
  have na: "file_of e out \<notin> set (map (\<lambda>img. file_of e (truediv e d (image_id img))) (images page))"
    and nb: "file_of e out \<notin> set (map (file_of e) (image_paths e d rest))"
    using Cons.prems(4) by (auto simp: image_paths_def)
  have ok1: "write_wt e out (h_calls h) (markdown page) = None"
    using Cons.prems(3) by (cases rest) simp_all
  obtain h1 s1 where w1: "f_write e out (markdown page) h s = (None, h1, s1)"
    and c1: "h_calls h1 = h_calls h @ [markdown page]"
    using f_write_ok [OF ok1, of s] by (cases "f_write e out (markdown page) h s") auto
  have i1: "in_step e out h1 s1"
    using f_write_in_step [OF Cons.prems(1) ok1] w1 by simp
  show ?case
  proof (cases rest)
    case Nil
    with Cons.prems have "\<not> int i < int n - 1" by auto
    then show ?thesis
      using Nil w1 save_images_in_step [OF i1 na]
      by (simp add: write_pages_Cons del: write_pages.simps(2))
  next
    case (Cons q rest')
    with Cons.prems have lt: "int i < int n - 1"
      and ok2: "write_wt e out (h_calls h1) page_separator = None"
      and ok3: "writes_ok e out (h_calls h1 @ [page_separator]) (spec_chunks (map markdown rest))"
      by (auto simp: c1)
    obtain h2 s2 where w2: "f_write e out page_separator h1 s1 = (None, h2, s2)"
      and c2: "h_calls h2 = h_calls h1 @ [page_separator]"
      using f_write_ok [OF ok2, of s1] by (cases "f_write e out page_separator h1 s1") auto
    have i2: "in_step e out h2 s2"
      using f_write_in_step [OF i1 ok2] w2 by simp
    have i3: "in_step e out h2 (save_images e (images page) d s2)"
      using i2 na by (rule save_images_in_step)
    have "Suc i + length rest = n" using Cons.prems(1,2) by simp
    from Cons.IH [OF i3 this _ nb] ok3 c2 show ?thesis
      using lt w1 w2 by (simp add: write_pages_Cons del: write_pages.simps(2))
  qed
qed

text \<open>
  What claim C1 says, for the runs apart from the defect: when the Markdown file can be
  written and no image of the response is saved to the file that the Markdown path
  leads to, the handle accepts exactly the chunks of the specification and the file
  ends up holding them, joined.
\<close>

lemma markdown_is_pages_joined_apart:
  assumes "markdown_io_ok e out resp"
      and "file_of e out \<notin> set (map (file_of e) (image_paths e (parent e out) (pages resp)))"
  shows "fst (create_markdown_file e resp out s) = Returned \<and>
         fs (snd (create_markdown_file e resp out s)) (file_of e out) =
           Some (concat (spec_chunks (map markdown (pages resp))))"
proof -
  let ?s2 = "put_file (file_of e out) [] (log INFO (WritingMarkdown out) s)"
  let ?h0 = "\<lparr>h_pos = 0, h_buf = [], h_calls = []\<rparr>"
  let ?w = "write_pages e out (parent e out) (length (pages resp)) 0 (pages resp) ?h0 ?s2"
  obtain x h s3 where w: "?w = (x, h, s3)" by (cases ?w) auto
  obtain y s4 where c: "f_close e out h s3 = (y, s4)" by (cases "f_close e out h s3") auto
  have io: "mkdir e (parent e out) = None" "open_wt e out = None"
    "writes_ok e out [] (spec_chunks (map markdown (pages resp)))"
    "close_wt e out (spec_chunks (map markdown (pages resp))) = None"
    using assms(1) by (simp_all add: markdown_io_ok_def)
  have "fst ?w = None \<and> h_calls (fst (snd ?w)) = h_calls ?h0 @ spec_chunks (map markdown (pages resp))"
    by (rule write_pages_ok) (simp_all add: io(3))
  then have x: "x = None" and hc: "h_calls h = spec_chunks (map markdown (pages resp))"
    using w by simp_all
  have h0: "in_step e out ?h0 ?s2"
    by (simp add: in_step_def)
  have "in_step e out (fst (snd ?w)) (snd (snd ?w))"
    by (rule write_pages_in_step [OF h0 _ _ assms(2)]) (simp_all add: io(3))
  then obtain b where b: "fs s3 (file_of e out) = Some b" "length b = h_pos h"
    "b @ h_buf h = concat (h_calls h)"
    using w by (auto simp: in_step_def)
  have cl: "f_close e out h s3 = (None, snd (raw_write e out (length (h_buf h)) h s3))"
    using io(4) hc by (simp add: f_close_def)
  have "fs (snd (raw_write e out (length (h_buf h)) h s3)) (file_of e out) = Some (concat (h_calls h))"
    using b by (auto simp: raw_write_def content_of_def write_at_def Let_def)
  then have "fs s4 (file_of e out) = Some (concat (spec_chunks (map markdown (pages resp))))"
    and "y = None"
    using c cl hc by simp_all
  then show ?thesis
    using x by (simp add: create_markdown_file_opened [OF io(1,2) w c])
qed

section \<open>The claims about images\<close>

text \<open>
  Claim C4. For an image whose payload is absent (\<open>None\<close>) or empty, \<open>save_image\<close> only
  logs a warning: it writes no file and records no error. The rest of the work goes on
  as if the image were not there: for a response that has the image anywhere among the
  images of any page, \<open>create_markdown_file\<close> ends the same way and leaves the same files
  as for the response without it, and the exit status of the run is the same.
\<close>

theorem empty_payload_is_skipped:
  assumes "image_base64 img = None \<or> image_base64 img = Some []"
      and "pages r1 = ps1 @ p\<lparr>images := before @ img # after\<rparr> # ps2"
      and "pages r2 = ps1 @ p\<lparr>images := before @ after\<rparr> # ps2"
  shows "save_image e img d s = log WARNING (ImageDataEmpty (image_id img)) s \<and>
         fs (save_image e img d s) = fs s \<and>
         fst (create_markdown_file e r1 out s) = fst (create_markdown_file e r2 out s) \<and>
         fs (snd (create_markdown_file e r1 out s)) = fs (snd (create_markdown_file e r2 out s)) \<and>
         fst (save_result e r1 out s) = fst (save_result e r2 out s)"
proof -
  have n: "save_image e img d' s' = log WARNING (ImageDataEmpty (image_id img)) s'" for d' s'
    using assms(1) by (rule save_image_empty)
  have "fs (save_image e img (parent e out) s') = fs s'" for s'
    by (simp add: n)
  from create_markdown_file_skip [OF this assms(2,3)] show ?thesis
    by (simp add: n save_result_status)
qed

text \<open>
  Page 3 of the example response has the image \<open>img-2\<close> with an empty payload in front of
  \<open>img-3\<close>; the run ends with status 0 and no file \<open>out/img-2\<close>.
\<close>

theorem empty_payload_is_skipped_witness:
  "save_image demo_env \<lparr>image_id = ''img-2'', image_base64 = Some []\<rparr> ''out'' world0 =
     log WARNING (ImageDataEmpty ''img-2'') world0 \<and>
   fs (save_image demo_env \<lparr>image_id = ''img-2'', image_base64 = Some []\<rparr> ''out'' world0)
     (File ''out/img-2'') = None \<and>
   fst (save_result demo_env demo_response ''out/report.md'' world0) =
   fst (save_result demo_env
          \<lparr>pages = [\<lparr>markdown = ''# One'', images = []\<rparr>,
                    \<lparr>markdown = ''two'', images =
                       [\<lparr>image_id = ''img-1'', image_base64 = Some demo_payload\<rparr>]\<rparr>]
                   @ \<lparr>markdown = ''three'', images =
                       [] @ [\<lparr>image_id = ''img-3'', image_base64 = Some ''data:broken''\<rparr>]\<rparr> # []\<rparr>
          ''out/report.md'' world0)"
proof -
  let ?img = "\<lparr>image_id = ''img-2'', image_base64 = Some []\<rparr>"
  let ?p = "\<lparr>markdown = ''three'', images = []\<rparr>"
  let ?ps1 = "[\<lparr>markdown = ''# One'', images = []\<rparr>,
               \<lparr>markdown = ''two'', images =
                  [\<lparr>image_id = ''img-1'', image_base64 = Some demo_payload\<rparr>]\<rparr>]"
  let ?after = "[\<lparr>image_id = ''img-3'', image_base64 = Some ''data:broken''\<rparr>]"
  let ?r2 = "\<lparr>pages = ?ps1 @ \<lparr>markdown = ''three'', images = [] @ ?after\<rparr> # []\<rparr>"
  have a: "image_base64 ?img = None \<or> image_base64 ?img = Some []" by simp
  have b: "pages demo_response = ?ps1 @ ?p\<lparr>images := [] @ ?img # ?after\<rparr> # []"
    by (simp add: demo_response_def)
  have c: "pages ?r2 = ?ps1 @ ?p\<lparr>images := [] @ ?after\<rparr> # []" by simp
  show ?thesis
    using empty_payload_is_skipped [OF a b c, of demo_env "''out''" world0 "''out/report.md''"]
    by (simp add: world0_def)
qed

text \<open>
  Claim C5. For an image whose non-empty payload the data-URI parser rejects (whatever
  the exception), \<open>save_image\<close> records one error in the log and writes no file. The
  rest of the work goes on: \<open>create_markdown_file\<close> ends the same way and leaves the same
  files as for the response without the image. When nothing else fails (the client is
  initialised, the input resolves to a non-empty document URL, the OCR call returns the
  response, the Markdown file can be written), the run ends with exit status 0.
\<close>

theorem malformed_payload_is_not_fatal:
  assumes "image_base64 img = Some b64" and "b64 \<noteq> []" and "datauri_parse e b64 = Inl ex"
      and "pages r1 = ps1 @ p\<lparr>images := before @ img # after\<rparr> # ps2"
      and "pages r2 = ps1 @ p\<lparr>images := before @ after\<rparr> # ps2"
  shows "fs (save_image e img d s) = fs s \<and>
         logs (save_image e img d s) =
           logs s @ [(ERROR, case ex of DataURIError \<Rightarrow> DataUriParseFailed (image_id img)
                                     | IOError \<Rightarrow> ImageWriteFailed (truediv e d (image_id img))
                                     | _ \<Rightarrow> ImageUnexpected (image_id img))] \<and>
         fst (create_markdown_file e r1 out s) = fst (create_markdown_file e r2 out s) \<and>
         fs (snd (create_markdown_file e r1 out s)) = fs (snd (create_markdown_file e r2 out s)) \<and>
         (client_ready e \<and> fst (resolve_document_url e a s) = Inr u \<and> u \<noteq> [] \<and>
          ocr_process e OCR_MODEL u True = Inr r1 \<and> markdown_io_ok e (output_file a) r1
            \<longrightarrow> fst (main e a s) = 0)"
proof -
  have n: "save_image e img d' s' = save_image_except ex img (truediv e d' (image_id img)) s'"
    for d' s'
    using assms(1-3) by (rule save_image_parse_failure)
  have "fs (save_image e img (parent e out) s') = fs s'" for s'
    by (simp add: n)
  from create_markdown_file_skip [OF this assms(4,5)] show ?thesis
    using main_exit_0 [of e a s u r1]
    by (simp add: n save_image_except_logs)
qed

text \<open>
  The file-mode example: \<open>img-3\<close> on page 3 has a payload that does not parse. The run
  ends with status 0, no file \<open>out/img-3\<close> exists, and the image \<open>img-1\<close> of page 2 and the
  Markdown file are there.
\<close>

theorem malformed_payload_is_not_fatal_witness:
  "datauri_parse demo_env ''data:broken'' = Inl DataURIError \<and>
   logs (save_image demo_env \<lparr>image_id = ''img-3'', image_base64 = Some ''data:broken''\<rparr>
           ''out'' world0) = [(ERROR, DataUriParseFailed ''img-3'')] \<and>
   fst (main demo_env file_args world0) = 0 \<and>
   fs (snd (main demo_env file_args world0)) (File ''out/img-3'') = None \<and>
   fs (snd (main demo_env file_args world0)) (File ''out/img-1'') = Some ''0123456789''"
proof -
  let ?img = "\<lparr>image_id = ''img-3'', image_base64 = Some ''data:broken''\<rparr>"
  let ?p = "\<lparr>markdown = ''three'', images = []\<rparr>"
  let ?ps1 = "[\<lparr>markdown = ''# One'', images = []\<rparr>,
               \<lparr>markdown = ''two'', images =
                  [\<lparr>image_id = ''img-1'', image_base64 = Some demo_payload\<rparr>]\<rparr>]"
  let ?before = "[\<lparr>image_id = ''img-2'', image_base64 = Some []\<rparr>]"
  let ?r2 = "\<lparr>pages = ?ps1 @ \<lparr>markdown = ''three'', images = ?before @ []\<rparr> # []\<rparr>"
  let ?u = "''https://files.example/signed/file-1''"
  have a: "image_base64 ?img = Some ''data:broken''" "''data:broken'' \<noteq> []"
    "datauri_parse demo_env ''data:broken'' = Inl DataURIError"
    by (simp_all add: demo_env_def demo_payload_def)
  have b: "pages demo_response = ?ps1 @ ?p\<lparr>images := ?before @ ?img # []\<rparr> # []"
    by (simp add: demo_response_def)
  have c: "pages ?r2 = ?ps1 @ ?p\<lparr>images := ?before @ []\<rparr> # []" by simp
  have r: "client_ready demo_env"
    by (simp add: client_ready_def demo_env_def)
  have u: "fst (resolve_document_url demo_env file_args world0) = Inr ?u"
    by (simp add: resolve_document_url_def upload_and_sign_def Let_def file_args_def demo_env_def)
  have o: "ocr_process demo_env OCR_MODEL ?u True = Inr demo_response"
    by (simp add: demo_env_def)
  have m: "markdown_io_ok demo_env (output_file file_args) demo_response"
    by (simp add: markdown_io_ok_def demo_env_def demo_response_def)
  have f: "fs (snd (main demo_env file_args world0)) (File ''out/img-3'') = None \<and>
           fs (snd (main demo_env file_args world0)) (File ''out/img-1'') = Some ''0123456789''"
    by (simp add: main_def init_client_def MISTRAL_API_KEY_ENV_VAR_def
        resolve_document_url_def upload_and_sign_def
        run_ocr_def save_result_def create_markdown_file_def save_image_def save_image_except_def
        f_write_def f_close_def raw_write_def content_of_def write_at_def Let_def
        file_args_def demo_env_def demo_response_def
        demo_payload_def posix_parent_def posix_truediv_def posix_name_def world0_def
        page_separator_def)
  show ?thesis
    using malformed_payload_is_not_fatal [OF a b c, of "''out''" world0 "''out/report.md''"
        file_args ?u] a(3) r u o m f
    by (simp add: world0_def)
qed

text \<open>
  Claim C6. For an image with a non-empty payload that the parser decodes to the bytes
  \<open>b\<close>, when the file can be opened and written, \<open>save_image\<close> leaves the file that the
  path \<open>output_dir / image.id\<close> (the id as it is, nothing appended) leads to with exactly
  the content \<open>b\<close>, whatever it held before, and changes no other file.
\<close>

theorem wellformed_payload_is_written:
  assumes "image_base64 img = Some b64" and "b64 \<noteq> []" and "datauri_parse e b64 = Inr b"
      and "open_wb e (truediv e d (image_id img)) = None"
      and "write_wb e (truediv e d (image_id img)) b = None"
  shows "fs (save_image e img d s) = (fs s)(file_of e (truediv e d (image_id img)) \<mapsto> b)"
  using save_image_written [OF assms] by simp

text \<open>
  The image \<open>img-1\<close> of the example, saved into \<open>out\<close> over an older file of that name.
\<close>

theorem wellformed_payload_is_written_witness:
  "datauri_parse demo_env demo_payload = Inr ''0123456789'' \<and>
   fs (save_image demo_env \<lparr>image_id = ''img-1'', image_base64 = Some demo_payload\<rparr> ''out''
         (put_file (File ''out/img-1'') ''old'' world0)) (File ''out/img-1'') = Some ''0123456789'' \<and>
   fs (save_image demo_env \<lparr>image_id = ''img-1'', image_base64 = Some demo_payload\<rparr> ''out''
         (put_file (File ''out/img-1'') ''old'' world0)) (File ''out/img-1.png'') = None"
proof -
  let ?img = "\<lparr>image_id = ''img-1'', image_base64 = Some demo_payload\<rparr>"
  have a: "image_base64 ?img = Some demo_payload" "demo_payload \<noteq> []"
    "datauri_parse demo_env demo_payload = Inr ''0123456789''"
    "open_wb demo_env (truediv demo_env ''out'' (image_id ?img)) = None"
    "write_wb demo_env (truediv demo_env ''out'' (image_id ?img)) ''0123456789'' = None"
    by (simp_all add: demo_env_def demo_payload_def)
  have t: "file_of demo_env (truediv demo_env ''out'' ''img-1'') = File ''out/img-1''"
    by (simp add: demo_env_def posix_truediv_def)
  show ?thesis
    using wellformed_payload_is_written [OF a, of "put_file (File ''out/img-1'') ''old'' world0"]
      a(3) t
    by (simp add: world0_def)
qed

section \<open>The claims about the Markdown file\<close>

text \<open>
  Claim C9. For a response with no pages, when the output directory can be created and
  the file opened and closed, \<open>create_markdown_file\<close> returns normally and leaves the
  Markdown file in place with an empty body, and the exit status after it is 0. A whole
  run that gets this response from the OCR call ends with exit status 0 and leaves the
  files as they were at its start but for the Markdown file, which is there and empty.
\<close>

theorem empty_page_sequence_is_success:
  assumes "pages resp = []" and "mkdir e (parent e out) = None" and "open_wt e out = None"
      and "close_wt e out [] = None"
  shows "fst (create_markdown_file e resp out s) = Returned \<and>
         fs (snd (create_markdown_file e resp out s)) = (fs s)(file_of e out \<mapsto> []) \<and>
         fst (save_result e resp out s) = 0 \<and>
         (client_ready e \<and> fst (resolve_document_url e a s) = Inr u \<and> u \<noteq> [] \<and>
          ocr_process e OCR_MODEL u True = Inr resp \<and> output_file a = out
            \<longrightarrow> fst (main e a s) = 0 \<and>
                fs (snd (main e a s)) = (fs s)(file_of e out \<mapsto> []))"
proof -
  have c: "create_markdown_file e resp out t =
             (Returned, log INFO (MarkdownDone out)
                (put_file (file_of e out) [] (log INFO (WritingMarkdown out) t)))" for t
  proof -
    let ?s2 = "put_file (file_of e out) [] (log INFO (WritingMarkdown out) t)"
    let ?h0 = "\<lparr>h_pos = 0, h_buf = [], h_calls = []\<rparr>"
    have w: "write_pages e out (parent e out) (length (pages resp)) 0 (pages resp) ?h0 ?s2 =
               (None, ?h0, ?s2)"
      using assms(1) by simp
    have cl: "f_close e out ?h0 ?s2 = (None, ?s2)"
      using assms(4) by (simp add: f_close_def raw_write_def)
    show ?thesis
      by (simp add: create_markdown_file_opened [OF assms(2,3) w cl])
  qed
  have "fst (main e a s) = 0 \<and> fs (snd (main e a s)) = (fs s)(file_of e out \<mapsto> [])"
    if r: "client_ready e" "fst (resolve_document_url e a s) = Inr u" "u \<noteq> []"
      "ocr_process e OCR_MODEL u True = Inr resp" and o: "output_file a = out"
  proof -
    obtain s4 where "fs s4 = fs s" "main e a s = save_result e resp (output_file a) s4"
      using main_reaches_save [OF r] by blast
    then show ?thesis
      using o by (simp add: save_result_status save_result_fs c)
  qed
  then show ?thesis
    by (simp add: c save_result_status)
qed

text \<open>
  The URL-mode example with an OCR service that finds no page: the run ends with
  status 0 and \<open>out/x.md\<close> is there, empty.
\<close>

theorem empty_page_sequence_is_success_witness:
  "pages \<lparr>pages = []\<rparr> = [] \<and>
   fst (main (demo_env\<lparr>ocr_process := \<lambda>m u b. Inr \<lparr>pages = []\<rparr>\<rparr>) url_args world0) = 0 \<and>
   fs (snd (main (demo_env\<lparr>ocr_process := \<lambda>m u b. Inr \<lparr>pages = []\<rparr>\<rparr>) url_args world0))
     (File ''out/x.md'') = Some [] \<and>
   fs (snd (main (demo_env\<lparr>ocr_process := \<lambda>m u b. Inr \<lparr>pages = []\<rparr>\<rparr>) url_args world0))
     (File ''out/img-1'') = None"
proof -
  let ?e = "demo_env\<lparr>ocr_process := \<lambda>m u b. Inr \<lparr>pages = []\<rparr>\<rparr>"
  have a: "pages \<lparr>pages = []\<rparr> = []" "mkdir ?e (parent ?e ''out/x.md'') = None"
    "open_wt ?e ''out/x.md'' = None" "close_wt ?e ''out/x.md'' [] = None"
    by (simp_all add: demo_env_def)
  have r: "client_ready ?e"
    by (simp add: client_ready_def demo_env_def)
  have u: "fst (resolve_document_url ?e url_args world0) = Inr ''https://example.com/doc.pdf''"
    by (simp add: resolve_document_url_def Let_def url_args_def)
  have o: "ocr_process ?e OCR_MODEL ''https://example.com/doc.pdf'' True = Inr \<lparr>pages = []\<rparr>"
    "output_file url_args = ''out/x.md''"
    by (simp_all add: url_args_def)
  have f: "file_of ?e ''out/x.md'' = File ''out/x.md''"
    by (simp add: demo_env_def)
  show ?thesis
    using empty_page_sequence_is_success [OF a, of world0 url_args "''https://example.com/doc.pdf''"]
      r u o f
    by (simp add: world0_def)
qed

text \<open>
  Claim C1 says that the Markdown file holds the page texts joined by \<open>\n\n\<close>. That is
  what the loop hands to the handle, and what the file holds after a run in which no
  image is saved to the Markdown file itself (\<open>markdown_is_pages_joined_apart\<close> below).
  But \<open>create_markdown_file\<close> saves the images of a page while the handle of the Markdown
  file is open, into the same directory and under names the response chooses, and
  never compares them with the name of the Markdown file. For the output \<open>out/x.md\<close>, one
  page with the text \<open># A\<close> and one image \<open>x.md\<close> of ten bytes, the image is written to the
  Markdown file; closing the handle then writes the three bytes of the text over the
  start of the image. The function returns normally, logs that the Markdown file was
  created, and the file holds \<open># A3456789\<close>. The same happens when the image is named by
  another spelling of the path (\<open>../out/x.md\<close>, which \<open>pathlib\<close> joins to
  \<open>out/../out/x.md\<close>).
\<close>

theorem markdown_overwritten_by_image:
  "markdown_io_ok demo_env ''out/x.md'' alias_response \<and>
   image_paths demo_env (parent demo_env ''out/x.md'') (pages alias_response) = [''out/x.md''] \<and>
   concat (spec_chunks (map markdown (pages alias_response))) = ''# A'' \<and>
   fst (create_markdown_file demo_env alias_response ''out/x.md'' world0) = Returned \<and>
   fs (snd (create_markdown_file demo_env alias_response ''out/x.md'' world0)) (File ''out/x.md'') =
     Some ''# A3456789'' \<and>
   fs (snd (create_markdown_file
              (demo_env\<lparr>file_of := \<lambda>p. if p = ''out/../out/x.md'' then File ''out/x.md'' else File p\<rparr>)
              \<lparr>pages = [\<lparr>markdown = ''# A'', images =
                 [\<lparr>image_id = ''../out/x.md'', image_base64 = Some demo_payload\<rparr>]\<rparr>]\<rparr>
              ''out/x.md'' world0)) (File ''out/x.md'') =
     Some ''# A3456789''"
  by (simp add: markdown_io_ok_def image_paths_def create_markdown_file_def save_image_def
      f_write_def f_close_def raw_write_def content_of_def write_at_def Let_def
      alias_response_def demo_env_def demo_payload_def
      posix_parent_def posix_truediv_def world0_def)

text \<open>
  Claim C10 says that the content of the Markdown file is a function of the page texts
  alone. By the same defect as for C1 it is not: for one and the same response, so with
  identical page texts, whose image is named like the Markdown file, the content of the
  Markdown file is \<open># A3456789\<close> when the payload of the image decodes and \<open># A\<close> when the
  parser rejects it or the image file cannot be opened.
\<close>

theorem markdown_depends_on_image:
  "fs (snd (create_markdown_file demo_env alias_response ''out/x.md'' world0)) (File ''out/x.md'') =
     Some ''# A3456789'' \<and>
   fs (snd (create_markdown_file (demo_env\<lparr>datauri_parse := \<lambda>u. Inl DataURIError\<rparr>)
              alias_response ''out/x.md'' world0)) (File ''out/x.md'') = Some ''# A'' \<and>
   fs (snd (create_markdown_file (demo_env\<lparr>open_wb := \<lambda>p. Some IOError\<rparr>)
              alias_response ''out/x.md'' world0)) (File ''out/x.md'') = Some ''# A''"
  by (simp add: create_markdown_file_def save_image_def save_image_except_def
      f_write_def f_close_def raw_write_def content_of_def write_at_def Let_def
      alias_response_def demo_env_def demo_payload_def
      posix_parent_def posix_truediv_def world0_def)

end
